theory Spec2Isabelle
  imports Complex_Main "HOL-Library.Sublist" "HOL-Library.Multiset"
    "HOL-Library.Char_ord" "HOL-Library.List_Lexorder"
begin

section \<open>Strings\<close>

text \<open>
  Strings are byte lists. The case mappings and the whitespace class cover ASCII, which is
  what service identifiers, configured patterns and hint texts are written in. A letter is
  a code \<open>0x41..0x5A\<close> or \<open>0x61..0x7A\<close>; bit 5 tells the two cases apart, and the
  mappings are written on the bits of the character.
\<close>

fun toUpperChar :: "char \<Rightarrow> char" where
  "toUpperChar (Char b0 b1 b2 b3 b4 b5 b6 b7) =
     (if \<not> b7 \<and> b6 \<and> b5 \<and> (b0 \<or> b1 \<or> b2 \<or> b3 \<or> b4) \<and> \<not> (b4 \<and> b3 \<and> (b2 \<or> (b1 \<and> b0)))
      then Char b0 b1 b2 b3 b4 False b6 b7
      else Char b0 b1 b2 b3 b4 b5 b6 b7)"

fun toLowerChar :: "char \<Rightarrow> char" where
  "toLowerChar (Char b0 b1 b2 b3 b4 b5 b6 b7) =
     (if \<not> b7 \<and> b6 \<and> \<not> b5 \<and> (b0 \<or> b1 \<or> b2 \<or> b3 \<or> b4) \<and> \<not> (b4 \<and> b3 \<and> (b2 \<or> (b1 \<and> b0)))
      then Char b0 b1 b2 b3 b4 True b6 b7
      else Char b0 b1 b2 b3 b4 b5 b6 b7)"

definition toUpperCase :: "string \<Rightarrow> string" where
  "toUpperCase s = map toUpperChar s"

definition toLowerCase :: "string \<Rightarrow> string" where
  "toLowerCase s = map toLowerChar s"

definition isSpace :: "char \<Rightarrow> bool" where
  "isSpace c = (c \<in> set [CHR '' '', CHR 0x09, CHR 0x0A, CHR 0x0B, CHR 0x0C, CHR 0x0D])"

definition isDigit :: "char \<Rightarrow> bool" where
  "isDigit c = (c \<in> set ''0123456789'')"

definition isLineTerminator :: "char \<Rightarrow> bool" where
  "isLineTerminator c = (c = CHR 0x0A \<or> c = CHR 0x0D)"

text \<open>\<open>String.prototype.trim\<close>.\<close>

definition trim :: "string \<Rightarrow> string" where
  "trim s = rev (dropWhile isSpace (rev (dropWhile isSpace s)))"

text \<open>\<open>text.includes(q)\<close>: \<open>q\<close> occurs in \<open>text\<close> as a contiguous substring.\<close>

fun str_includes :: "string \<Rightarrow> string \<Rightarrow> bool" where
  "str_includes [] q = (q = [])"
| "str_includes (c # cs) q = (prefix q (c # cs) \<or> str_includes cs q)"

text \<open>
  \<open>s.split(/\s+/)\<close>: the pieces between maximal runs of whitespace. A leading or a
  trailing run leaves an empty first or last piece, as in JavaScript. The flag says that
  the scan is inside a run, the second argument is the piece read so far, reversed.
\<close>

fun splitWs :: "bool \<Rightarrow> string \<Rightarrow> string \<Rightarrow> string list" where
  "splitWs inRun acc [] = [rev acc]"
| "splitWs inRun acc (c # cs) =
     (if isSpace c then (if inRun then splitWs True acc cs else rev acc # splitWs True [] cs)
      else splitWs False (c # acc) cs)"

definition split_whitespace :: "string \<Rightarrow> string list" where
  "split_whitespace s = splitWs False [] s"

text \<open>\<open>parts.join(sep)\<close>.\<close>

fun join :: "string \<Rightarrow> string list \<Rightarrow> string" where
  "join sep [] = []"
| "join sep [x] = x"
| "join sep (x # y # ys) = x @ sep @ join sep (y # ys)"

section \<open>Regular expressions of the configuration\<close>

text \<open>
  The patterns of \<open>DOMAIN_CONFIGS\<close> and \<open>SKIP_PATTERNS\<close> are built from literals,
  an optional character (\<open>Z?\<close>), an optional digit (\<open>\d?\<close>), \<open>.*\<close>, the anchors
  \<open>^\<close> and \<open>$\<close> and the flag \<open>i\<close>. \<open>test\<close> is \<open>RegExp.prototype.test\<close> on that
  fragment: is there a match starting anywhere (at position 0 when anchored). With the flag
  \<open>i\<close> both sides are compared after the canonicalisation of ECMAScript, which is
  \<open>toUpperCase\<close>.
\<close>

datatype atom = Lit string | Opt char | OptDigit | DotStar

record regexp =
  anchorStart :: bool
  atoms :: "atom list"
  anchorEnd :: bool
  ignoreCase :: bool

fun matchHere :: "atom list \<Rightarrow> bool \<Rightarrow> string \<Rightarrow> bool" where
  "matchHere [] atEnd s = (if atEnd then s = [] else True)"
| "matchHere (Lit l # r) atEnd s = (prefix l s \<and> matchHere r atEnd (drop (length l) s))"
| "matchHere (Opt c # r) atEnd [] = matchHere r atEnd []"
| "matchHere (Opt c # r) atEnd (d # ds) =
     ((d = c \<and> matchHere r atEnd ds) \<or> matchHere r atEnd (d # ds))"
| "matchHere (OptDigit # r) atEnd [] = matchHere r atEnd []"
| "matchHere (OptDigit # r) atEnd (d # ds) =
     ((isDigit d \<and> matchHere r atEnd ds) \<or> matchHere r atEnd (d # ds))"
| "matchHere (DotStar # r) atEnd [] = matchHere r atEnd []"
| "matchHere (DotStar # r) atEnd (d # ds) =
     (matchHere r atEnd (d # ds) \<or> (\<not> isLineTerminator d \<and> matchHere (DotStar # r) atEnd ds))"

fun matchAnywhere :: "atom list \<Rightarrow> bool \<Rightarrow> string \<Rightarrow> bool" where
  "matchAnywhere as atEnd [] = matchHere as atEnd []"
| "matchAnywhere as atEnd (c # cs) = (matchHere as atEnd (c # cs) \<or> matchAnywhere as atEnd cs)"

fun canonAtom :: "atom \<Rightarrow> atom" where
  "canonAtom (Lit l) = Lit (toUpperCase l)"
| "canonAtom (Opt c) = Opt (toUpperChar c)"
| "canonAtom OptDigit = OptDigit"
| "canonAtom DotStar = DotStar"

definition test :: "regexp \<Rightarrow> string \<Rightarrow> bool" where
  "test r s =
     (let s' = (if ignoreCase r then toUpperCase s else s);
          as = (if ignoreCase r then map canonAtom (atoms r) else atoms r)
      in if anchorStart r then matchHere as (anchorEnd r) s'
         else matchAnywhere as (anchorEnd r) s')"

text \<open>Shorthands for the literal forms: \<open>/body/i\<close>, \<open>/^body/i\<close>, \<open>/body$/i\<close>, and
  the case-sensitive \<open>/body/\<close>, \<open>/^body/\<close>, \<open>/body$/\<close>.\<close>

definition rxi :: "atom list \<Rightarrow> regexp" where
  "rxi as = \<lparr>anchorStart = False, atoms = as, anchorEnd = False, ignoreCase = True\<rparr>"

definition rxi_start :: "atom list \<Rightarrow> regexp" where
  "rxi_start as = \<lparr>anchorStart = True, atoms = as, anchorEnd = False, ignoreCase = True\<rparr>"

definition rxi_end :: "atom list \<Rightarrow> regexp" where
  "rxi_end as = \<lparr>anchorStart = False, atoms = as, anchorEnd = True, ignoreCase = True\<rparr>"

definition rx :: "atom list \<Rightarrow> regexp" where
  "rx as = \<lparr>anchorStart = False, atoms = as, anchorEnd = False, ignoreCase = False\<rparr>"

definition rx_start :: "atom list \<Rightarrow> regexp" where
  "rx_start as = \<lparr>anchorStart = True, atoms = as, anchorEnd = False, ignoreCase = False\<rparr>"

definition rx_end :: "atom list \<Rightarrow> regexp" where
  "rx_end as = \<lparr>anchorStart = False, atoms = as, anchorEnd = True, ignoreCase = False\<rparr>"

section \<open>Domain and tier classification (domain-tier-config)\<close>

record DomainConfig =
  name :: string
  displayName :: string
  prefixes :: "regexp list"
  tier1Keywords :: "regexp list"
  tier2Keywords :: "regexp list"
  tier3Keywords :: "regexp list"
  excludePatterns :: "regexp list"
  priorityServices :: "string list"

record ServiceClassification =
  domain :: "string option"
  tier :: nat
  priority :: nat
  isPriorityService :: bool

definition AR_CONFIG :: DomainConfig where
  "AR_CONFIG = \<lparr>
     name = ''AR'',
     displayName = ''Accounts Receivable'',
     prefixes = [
       rxi_start [Opt CHR ''Z'', Lit ''FAR_''],
       rxi_start [Opt CHR ''Z'', Lit ''FIAR_''],
       rxi [Lit ''RECEIVABLE''],
       rxi_start [Opt CHR ''Z'', Lit ''UI_'', DotStar, Lit ''RECEIVABLE''],
       rxi_start [Opt CHR ''Z'', Lit ''UI_COLL''],
       rxi_start [Opt CHR ''Z'', Lit ''UDMO_COLLECTION'']],
     tier1Keywords = [
       rxi [Lit ''CUSTOMER_LINE_ITEMS''],
       rxi [Lit ''PAYMENT_POST''],
       rxi [Lit ''MANAGE''],
       rxi [Lit ''CREATE''],
       rxi [Lit ''WORKLIST''],
       rxi [Lit ''DOWN_PAYMENT''],
       rxi [Lit ''POSTING_RULE'', Opt CHR ''S''],
       rxi [Lit ''INCOMING_PAYT'']],
     tier2Keywords = [
       rxi [Lit ''DISPLAY''],
       rxi [Lit ''HISTORY''],
       rxi [Lit ''LIST_'', Opt CHR ''V'', OptDigit],
       rxi [Lit ''BALANCES''],
       rxi [Lit ''CORRESPONDENCE''],
       rxi [Lit ''INSPECT''],
       rxi [Lit ''VALUATION''],
       rxi [Lit ''RESERVE'']],
     tier3Keywords = [
       rxi_end [Lit ''_CDS''],
       rxi [Lit ''_OVP_''],
       rxi [Lit ''PROCFLOW''],
       rxi [Lit ''_FS_SRV''],
       rxi [Lit ''OVERVIEW''],
       rxi [Lit ''TRACKER''],
       rxi [Lit ''BREAKDOWN''],
       rxi [Lit ''AGING''],
       rxi [Lit ''PROGRESS'']],
     excludePatterns = [rxi_start [Lit ''RAR_'']],
     priorityServices = [''ZFAR_CUSTOMER_LINE_ITEMS_0001'']\<rparr>"

definition SD_CONFIG :: DomainConfig where
  "SD_CONFIG = \<lparr>
     name = ''SD'',
     displayName = ''Sales & Distribution'',
     prefixes = [
       rxi_start [Opt CHR ''Z'', Lit ''SD_''],
       rxi [Lit ''BILLING''],
       rxi [Lit ''INVOICE''],
       rxi [Lit ''CREDIT'', DotStar, Lit ''MEMO''],
       rxi [Lit ''DEBIT'', DotStar, Lit ''MEMO'']],
     tier1Keywords = [rxi [Lit ''MANAGE''], rxi [Lit ''CREATE''], rxi [Lit ''_WL_SRV'']],
     tier2Keywords = [rxi [Lit ''DISPLAY''], rxi [Lit ''LIST''], rxi [Lit ''_OP_SRV'']],
     tier3Keywords = [rxi_end [Lit ''_CDS''], rxi [Lit ''PROCFLOW''], rxi [Lit ''_FS_SRV'']],
     excludePatterns = [],
     priorityServices =
       [''ZSD_CUSTOMER_INVOICES_MANAGE_0001'', ''ZSD_CUSTOMER_INVOICES_CREATE_0001'']\<rparr>"

definition FI_CONFIG :: DomainConfig where
  "FI_CONFIG = \<lparr>
     name = ''FI'',
     displayName = ''Finance'',
     prefixes = [
       rxi_start [Opt CHR ''Z'', Lit ''FAC_''],
       rxi_start [Opt CHR ''Z'', Lit ''FI_''],
       rxi [Lit ''DUNNING''],
       rxi [Lit ''COLLECTION''],
       rxi [Lit ''FINANCIAL'', DotStar, Lit ''DOC'']],
     tier1Keywords =
       [rxi [Lit ''MANAGE''], rxi [Lit ''POST''], rxi [Lit ''PROPOSAL''], rxi [Lit ''EXCEPTION'']],
     tier2Keywords = [rxi [Lit ''DISPLAY''], rxi [Lit ''HISTORY''], rxi [Lit ''REVERSAL'']],
     tier3Keywords = [rxi_end [Lit ''_CDS''], rxi [Lit ''_OVP_''], rxi [Lit ''DISTRIBUTION'']],
     excludePatterns = [],
     priorityServices = []\<rparr>"

definition DOMAIN_CONFIGS :: "DomainConfig list" where
  "DOMAIN_CONFIGS = [AR_CONFIG, SD_CONFIG, FI_CONFIG]"

text \<open>\<open>PRIORITY_SCORES\<close>.\<close>

definition PRIORITY_SERVICE :: nat where "PRIORITY_SERVICE = 1"
definition TIER_1 :: nat where "TIER_1 = 10"
definition TIER_2 :: nat where "TIER_2 = 20"
definition TIER_3 :: nat where "TIER_3 = 30"
definition UNCLASSIFIED :: nat where "UNCLASSIFIED = 100"

definition matchesAny :: "string \<Rightarrow> regexp list \<Rightarrow> bool" where
  "matchesAny v patterns = list_ex (\<lambda>pattern. test pattern v) patterns"

definition determineTier :: "string \<Rightarrow> string \<Rightarrow> DomainConfig \<Rightarrow> nat" where
  "determineTier serviceId title config =
     (let searchText = serviceId @ '' '' @ title in
      if matchesAny searchText (tier1Keywords config) then 1
      else if matchesAny searchText (tier2Keywords config) then 2
      else if matchesAny searchText (tier3Keywords config) then 3
      else 1)"

text \<open>The loop of \<open>classifyService\<close> over the configurations, in declaration order.\<close>

fun classifyWith :: "DomainConfig list \<Rightarrow> string \<Rightarrow> string \<Rightarrow> ServiceClassification" where
  "classifyWith [] serviceId title =
     \<lparr>domain = None, tier = 0, priority = UNCLASSIFIED, isPriorityService = False\<rparr>"
| "classifyWith (config # rest) serviceId title =
     (let upperServiceId = toUpperCase serviceId in
      if matchesAny upperServiceId (excludePatterns config) then classifyWith rest serviceId title
      else if matchesAny upperServiceId (prefixes config) \<or> matchesAny title (prefixes config)
      then
        (if list_ex (\<lambda>ps. toUpperCase ps = upperServiceId) (priorityServices config)
         then \<lparr>domain = Some (name config), tier = 1, priority = PRIORITY_SERVICE,
               isPriorityService = True\<rparr>
         else
           (let t = determineTier serviceId title config;
                basePriority = (if t = 1 then TIER_1 else if t = 2 then TIER_2 else TIER_3)
            in \<lparr>domain = Some (name config), tier = t, priority = basePriority,
                 isPriorityService = False\<rparr>))
      else classifyWith rest serviceId title)"

definition classifyService :: "string \<Rightarrow> string \<Rightarrow> ServiceClassification" where
  "classifyService serviceId title = classifyWith DOMAIN_CONFIGS serviceId title"

definition isExcludedService :: "string \<Rightarrow> bool" where
  "isExcludedService serviceId =
     list_ex (\<lambda>config. matchesAny (toUpperCase serviceId) (excludePatterns config)) DOMAIN_CONFIGS"

section \<open>Data model (sap-types)\<close>

record Property =
  pname :: string
  ptype :: string
  nullable :: bool
  maxLength :: "string option"

record EntityType =
  ename :: string
  entitySet :: "string option"
  properties :: "Property list"
  keys :: "string list"
  creatable :: bool
  updatable :: bool
  deletable :: bool

record ServiceMetadata =
  entityTypes :: "EntityType list"

text \<open>
  A catalog service carries the four classification fields that \<open>discoverCatalog\<close> copies
  from \<open>classifyService\<close>; \<open>tier\<close> and \<open>priority\<close> absent read as \<open>0\<close>, which is
  what the \<open>||\<close> fallbacks of the code make of both.
\<close>

record ODataService = ServiceClassification +
  svcId :: string
  title :: string
  description :: string
  url :: string
  metadataUrl :: string
  metadata :: "ServiceMetadata option"

record ServiceHint =
  label :: string
  useFor :: string
  entities :: "string list option"
  tcode :: "string option"

definition SERVICE_HINTS :: "(string \<times> ServiceHint) list" where
  "SERVICE_HINTS = [
    (''ZFAR_CUSTOMER_LINE_ITEMS_0001'',
      \<lparr>label = ''Customer Line Items (FBL5N)'',
       useFor = ''View INDIVIDUAL customer invoices, line items, open items list, cleared items, document details, specific invoice lookup, set payment blocks. Use this for item-level details NOT for aggregate balances/totals.'',
       entities = Some [''Item'', ''UpdatableItem'', ''Customer''],
       tcode = Some ''FBL5N''\<rparr>),
    (''ZFAR_PAYMENT_POST_SRV_0001'',
      \<lparr>label = ''Post Incoming Payments (F-28)'',
       useFor = ''Post customer payments, cash receipts, payment on account, clear open items'',
       entities = Some [''Payment'', ''PaymentItem''],
       tcode = Some ''F-28''\<rparr>),
    (''ZFAR_DOWN_PAYMENT_REQUEST_MANAGE_SR_0001'',
      \<lparr>label = ''Manage Down Payment Requests'',
       useFor = ''Create, display, modify customer down payment requests and advances'',
       entities = Some [''DownPaymentRequest''],
       tcode = Some ''F-37''\<rparr>),
    (''ZFAR_MANAGE_PR_SRV_0001'',
      \<lparr>label = ''Manage Posting Rules'',
       useFor = ''Create and maintain automatic posting rules for incoming payments'',
       entities = Some [''PostingRule''],
       tcode = None\<rparr>),
    (''ZFAR_MANAGE_INCOMING_PAYT_FILES_SRV_0001'',
      \<lparr>label = ''Manage Incoming Payment Files'',
       useFor = ''Upload, process, and manage bank payment files (lockbox, BAI, MT940)'',
       entities = Some [''PaymentFile'', ''PaymentFileItem''],
       tcode = None\<rparr>),
    (''ZFAR_MY_DUNNING_PROPOSAL_SRV_0001'',
      \<lparr>label = ''Dunning Proposal Management'',
       useFor = ''Create dunning proposals, review dunning letters, execute dunning runs'',
       entities = Some [''DunningProposal'', ''DunningItem''],
       tcode = Some ''F150''\<rparr>),
    (''ZFAR_DISP_PROCESS_FLOW_SRV_0001'',
      \<lparr>label = ''AR Document Process Flow'',
       useFor = ''View document flow from sales order to invoice to payment'',
       entities = Some [''ProcessFlow'', ''DocumentFlow''],
       tcode = None\<rparr>),
    (''ZFAR_DISP_PAYMENT_CARD_DATA_SRV_0001'',
      \<lparr>label = ''Payment Card Data'',
       useFor = ''View and manage credit card payment information for customers'',
       entities = Some [''PaymentCard''],
       tcode = None\<rparr>),
    (''ZUI_PROCESSRECEIVABLES_MAN_0001'',
      \<lparr>label = ''Manage Customer Receivables'',
       useFor = ''Process receivables, apply payments, handle disputes, manage collections'',
       entities = Some [''Receivable'', ''Payment'', ''Dispute''],
       tcode = None\<rparr>),
    (''ZUI_COLL_CONTACT_MANAGE_0001'',
      \<lparr>label = ''Collections Contact Management'',
       useFor = ''Log collection calls, schedule follow-ups, record customer promises to pay'',
       entities = Some [''CollectionContact'', ''PromiseToPay''],
       tcode = None\<rparr>),
    (''ZUI_COLLECTIONS_EMAIL_0001'',
      \<lparr>label = ''Collections Email'',
       useFor = ''Send collection emails to customers, track email history'',
       entities = Some [''CollectionEmail''],
       tcode = None\<rparr>),
    (''ZUDMO_COLLECTION_WORKLIST_0001'',
      \<lparr>label = ''Collections Worklist'',
       useFor = ''View and work collection worklist items, prioritize collection activities'',
       entities = Some [''WorklistItem'', ''CollectionCase''],
       tcode = None\<rparr>),
    (''ZFAR_BALANCES_V2_SRV_0001'',
      \<lparr>label = ''Customer Balances (FD10N)'',
       useFor = ''Show customer BALANCE, total balance, account balance summary, aggregate amounts owed by customer per fiscal year. Use this for '' @ [CHR 0x22] @ ''show balance'' @ [CHR 0x22] @ '' or '' @ [CHR 0x22] @ ''what is the balance'' @ [CHR 0x22] @ '' queries, NOT for individual line items.'',
       entities = Some [''CustomerBalanceSet'', ''BalanceComparisonSet'', ''SpecialGLBalanceSet''],
       tcode = Some ''FD10N''\<rparr>),
    (''ZFAR_CUSTOMER_LIST_V2_0001'',
      \<lparr>label = ''Customer Master List'',
       useFor = ''Search and browse customer master data'',
       entities = Some [''Customer''],
       tcode = None\<rparr>),
    (''ZFAR_DUNNING_HISTORY_SRV_0001'',
      \<lparr>label = ''Dunning History'',
       useFor = ''View dunning history, past dunning letters sent to customers'',
       entities = Some [''DunningHistory''],
       tcode = None\<rparr>),
    (''ZFAR_CORRESPONDENCE_HISTORY_SRV_0001'',
      \<lparr>label = ''AR Correspondence History'',
       useFor = ''View account statements, balance confirmations sent to customers'',
       entities = Some [''Correspondence''],
       tcode = None\<rparr>),
    (''ZFAR_INSPECT_ITEMS_CHNGLOG_SRV_0001'',
      \<lparr>label = ''Line Item Change Log'',
       useFor = ''View audit trail of changes to AR line items (who changed what, when)'',
       entities = Some [''ChangeLog''],
       tcode = None\<rparr>),
    (''ZFAR_DOUBTFUL_ACCTS_VALUATION_SRV_0001'',
      \<lparr>label = ''Doubtful Accounts Valuation'',
       useFor = ''View bad debt provisions, doubtful receivables valuation'',
       entities = Some [''ValuationResult''],
       tcode = None\<rparr>),
    (''ZFAR_BAD_DEBT_RESERVE_SRV_0001'',
      \<lparr>label = ''Bad Debt Reserve'',
       useFor = ''View bad debt reserve calculations and allowances'',
       entities = Some [''BadDebtReserve''],
       tcode = None\<rparr>),
    (''ZUI_HOBRECEIVABLES_DISPLAY_0001'',
      \<lparr>label = ''Receivables Overview Display'',
       useFor = ''Display receivables overview, high-level AR summaries'',
       entities = Some [''ReceivablesOverview''],
       tcode = None\<rparr>),
    (''ZC_TOTALACCOUNTSRECEIVABLES_CDS_0001'',
      \<lparr>label = ''Total Accounts Receivable Analytics'',
       useFor = ''View AR KPIs, aging analysis, total receivables by company code, aging buckets report, overdue amounts dashboard, AR analytics'',
       entities = Some [''TotalReceivables'', ''AgingBucket''],
       tcode = None\<rparr>),
    (''ZFAR_AR_OVP_SRV_0001'',
      \<lparr>label = ''AR Overview Page'',
       useFor = ''Accounts receivable dashboard, AR manager overview, key metrics and charts'',
       entities = Some [''AROverview'', ''ARMetrics''],
       tcode = None\<rparr>)
  ]"

text \<open>\<open>getServiceHint\<close>: the first entry whose key equals the identifier, ignoring case.\<close>

fun findHint :: "(string \<times> ServiceHint) list \<Rightarrow> string \<Rightarrow> ServiceHint option" where
  "findHint [] upperServiceId = None"
| "findHint ((k, hint) # rest) upperServiceId =
     (if toUpperCase k = upperServiceId then Some hint else findHint rest upperServiceId)"

definition getServiceHint :: "string \<Rightarrow> ServiceHint option" where
  "getServiceHint serviceId = findHint SERVICE_HINTS (toUpperCase serviceId)"

definition getDomainDisplayName :: "string option \<Rightarrow> string" where
  "getDomainDisplayName d =
     (case d of
        None \<Rightarrow> ''Unclassified''
      | Some dn \<Rightarrow>
          (if dn = [] then ''Unclassified''
           else (case find (\<lambda>c. name c = dn) DOMAIN_CONFIGS of
                   Some c \<Rightarrow> (if displayName c = [] then dn else displayName c)
                 | None \<Rightarrow> dn)))"

section \<open>Lexical fallback (patternSearch)\<close>

text \<open>
  Scores are JavaScript numbers; the model computes with real numbers, so the products
  \<open>weight * 0.9\<close> and \<open>weight * 0.85\<close> are exact.
\<close>

record ScoredService =
  service :: ODataService
  score :: real
  matchReason :: string

record SearchTarget =
  ttext :: string
  weight :: real
  tname :: string

definition queryWordsOf :: "string \<Rightarrow> string list" where
  "queryWordsOf queryLower = filter (\<lambda>w. length w > 2) (split_whitespace queryLower)"

definition searchTargets :: "ODataService \<Rightarrow> ServiceHint option \<Rightarrow> SearchTarget list" where
  "searchTargets s hint = [
     \<lparr>ttext = toLowerCase (svcId s), weight = 0.9, tname = ''ID''\<rparr>,
     \<lparr>ttext = toLowerCase (title s), weight = 0.85, tname = ''Title''\<rparr>,
     \<lparr>ttext = toLowerCase (description s), weight = 0.6, tname = ''Description''\<rparr>,
     \<lparr>ttext = (case hint of Some h \<Rightarrow> toLowerCase (label h) | None \<Rightarrow> []),
      weight = 0.95, tname = ''Label''\<rparr>,
     \<lparr>ttext = (case hint of Some h \<Rightarrow> toLowerCase (useFor h) | None \<Rightarrow> []),
      weight = 0.9, tname = ''UseFor''\<rparr>,
     \<lparr>ttext = (case hint of
                 Some h \<Rightarrow> (case tcode h of Some t \<Rightarrow> toLowerCase t | None \<Rightarrow> [])
               | None \<Rightarrow> []),
      weight = 0.85, tname = ''TCode''\<rparr>,
     \<lparr>ttext = (case hint of
                 Some h \<Rightarrow> (case entities h of
                              Some es \<Rightarrow> toLowerCase (join '' '' es) | None \<Rightarrow> [])
               | None \<Rightarrow> []),
      weight = 0.8, tname = ''Entities''\<rparr>]"

text \<open>One round of the loop over the targets: the pair is \<open>(bestScore, matchReason)\<close>.\<close>

definition targetStep ::
  "string \<Rightarrow> string list \<Rightarrow> real \<times> string \<Rightarrow> SearchTarget \<Rightarrow> real \<times> string" where
  "targetStep queryLower queryWords best target =
     (if ttext target = [] then best
      else if str_includes (ttext target) queryLower then
        (if weight target > fst best then (weight target, tname target @ '' match'') else best)
      else if length queryWords > 1 then
        (if list_all (\<lambda>word. str_includes (ttext target) word) queryWords
            \<and> weight target * 0.9 > fst best
         then (weight target * 0.9, tname target @ '' (all words)'') else best)
      else if length queryWords = 1 \<and> str_includes (ttext target) (hd queryWords) then
        (if weight target * 0.85 > fst best
         then (weight target * 0.85, tname target @ '' (partial)'') else best)
      else best)"

definition scoreService :: "string \<Rightarrow> string list \<Rightarrow> ODataService \<Rightarrow> ScoredService" where
  "scoreService queryLower queryWords s =
     (let hint = getServiceHint (svcId s);
          best = foldl (targetStep queryLower queryWords) (0, []) (searchTargets s hint)
      in \<lparr>service = s, score = fst best, matchReason = snd best\<rparr>)"

definition patternSearch :: "ODataService list \<Rightarrow> string \<Rightarrow> ScoredService list" where
  "patternSearch services queryLower =
     (let queryWords = queryWordsOf queryLower
      in filter (\<lambda>item. score item > 0) (map (scoreService queryLower queryWords) services))"

section \<open>Stage 1: discover-sap-data (discoverServicesAndEntities)\<close>

text \<open>Decimal rendering of numbers, as \<open>String(n)\<close> gives it for integers.\<close>

function showNat :: "nat \<Rightarrow> string" where
  "showNat n =
     (if n < 10 then [''0123456789'' ! n]
      else showNat (n div 10) @ [''0123456789'' ! (n mod 10)])"
  by pat_completeness auto
termination
  by (relation "measure (\<lambda>n. n)") auto

definition showInt :: "int \<Rightarrow> string" where
  "showInt i = (if i < 0 then ''-'' @ showNat (nat (- i)) else showNat (nat i))"

text \<open>\<open>x.toFixed(0)\<close>: the nearest integer, the larger one on a tie, sign first.\<close>

definition toFixed0 :: "real \<Rightarrow> string" where
  "toFixed0 x =
     (if x < 0 then ''-'' @ showNat (nat \<lfloor>- x + 1 / 2\<rfloor>) else showNat (nat \<lfloor>x + 1 / 2\<rfloor>))"

datatype exn = Error string

text \<open>
  The embedding service as the registry sees it: \<open>isReady()\<close> and
  \<open>searchServices(query, topK, minScore)\<close>, which returns its hits or throws. A hit is
  read through \<open>result.metadata.serviceId\<close> and \<open>result.score\<close>.
\<close>

record SearchResult =
  metaServiceId :: string
  simScore :: real

record EmbeddingService =
  isReady :: bool
  searchServices :: "string \<Rightarrow> int \<Rightarrow> real \<Rightarrow> exn + SearchResult list"

record DiscoverArgs =
  query :: "string option"
  domainArg :: "string option"
  limit :: "int option"

fun semanticToScored :: "ODataService list \<Rightarrow> SearchResult list \<Rightarrow> ScoredService list" where
  "semanticToScored services [] = []"
| "semanticToScored services (r # rs) =
     (case find (\<lambda>s. svcId s = metaServiceId r) services of
        Some s \<Rightarrow>
          \<lparr>service = s, score = simScore r,
           matchReason = ''Semantic match ('' @ toFixed0 (simScore r * 100) @ ''%)''\<rparr>
          # semanticToScored services rs
      | None \<Rightarrow> semanticToScored services rs)"

text \<open>
  The body of the inner \<open>try\<close>: \<open>Inl\<close> is the exception of the embedding service,
  \<open>Inr\<close> the search method and the scored services after the block.
\<close>

definition semanticTry ::
  "EmbeddingService \<Rightarrow> ODataService list \<Rightarrow> string \<Rightarrow> int
     \<Rightarrow> exn + (string \<times> ScoredService list)" where
  "semanticTry e services q n =
     (case searchServices e q (n * 2) 0.25 of
        Inl err \<Rightarrow> Inl err
      | Inr semanticResults \<Rightarrow>
          (if length semanticResults > 0
           then Inr (''semantic'', semanticToScored services semanticResults)
           else Inr (''none'', [])))"

text \<open>The block \<open>if (query) { ... }\<close>; the \<open>catch\<close> only logs and goes on.\<close>

definition hybridSearch ::
  "EmbeddingService option \<Rightarrow> ODataService list \<Rightarrow> string \<Rightarrow> int
     \<Rightarrow> string \<times> ScoredService list" where
  "hybridSearch emb services q n =
     (if q \<noteq> [] then
        (let afterSemantic =
               (case emb of
                  None \<Rightarrow> (''none'', [])
                | Some e \<Rightarrow>
                    (if isReady e then
                       (case semanticTry e services q n of
                          Inl semanticError \<Rightarrow> (''none'', [])
                        | Inr r \<Rightarrow> r)
                     else (''none'', [])))
         in if length (snd afterSemantic) = 0
            then (''pattern'', patternSearch services (toLowerCase q))
            else afterSemantic)
      else (''none'', []))"

text \<open>"If still no results or no query, return all services".\<close>

definition withFallbackAll ::
  "ODataService list \<Rightarrow> string \<Rightarrow> string \<times> ScoredService list \<Rightarrow> string \<times> ScoredService list"
  where
  "withFallbackAll services q found =
     (if length (snd found) = 0
      then (if q \<noteq> [] then ''fallback'' else ''all'',
            map (\<lambda>s. \<lparr>service = s, score = 0.5, matchReason = ''All services''\<rparr>) services)
      else found)"

text \<open>The comparator handed to \<open>scoredServices.sort\<close>.\<close>

definition compareScored :: "ScoredService \<Rightarrow> ScoredService \<Rightarrow> real" where
  "compareScored a b =
     (if isPriorityService (service a) \<noteq> isPriorityService (service b)
      then (if isPriorityService (service a) then - 1 else 1)
      else
        (let tierA = (if tier (service a) = 0 then 99 else tier (service a));
             tierB = (if tier (service b) = 0 then 99 else tier (service b))
         in if tierA \<noteq> tierB then real tierA - real tierB
            else
              (let prioA = (if priority (service a) = 0 then 100 else priority (service a));
                   prioB = (if priority (service b) = 0 then 100 else priority (service b))
               in if prioA \<noteq> prioB then real prioA - real prioB
                  else score b - score a)))"

text \<open>
  \<open>Array.prototype.sort\<close> is stable; with a consistent comparator its result is the one
  stable arrangement, which inserting from the right computes.
\<close>

fun insertBy :: "('a \<Rightarrow> 'a \<Rightarrow> real) \<Rightarrow> 'a \<Rightarrow> 'a list \<Rightarrow> 'a list" where
  "insertBy cmp x [] = [x]"
| "insertBy cmp x (y # ys) = (if cmp x y \<le> 0 then x # y # ys else y # insertBy cmp x ys)"

definition sortBy :: "('a \<Rightarrow> 'a \<Rightarrow> real) \<Rightarrow> 'a list \<Rightarrow> 'a list" where
  "sortBy cmp xs = foldr (insertBy cmp) xs []"

text \<open>\<open>xs.slice(0, n)\<close>; a negative \<open>n\<close> counts from the end.\<close>

definition slice0 :: "'a list \<Rightarrow> int \<Rightarrow> 'a list" where
  "slice0 xs n = (if n < 0 then take (nat (int (length xs) + n)) xs else take (nat n) xs)"

definition queryOf :: "DiscoverArgs \<Rightarrow> string" where
  "queryOf args = (case query args of None \<Rightarrow> [] | Some q \<Rightarrow> trim q)"

definition domainFilterOf :: "DiscoverArgs \<Rightarrow> string" where
  "domainFilterOf args =
     (case domainArg args of
        None \<Rightarrow> ''ALL''
      | Some d \<Rightarrow> (if toUpperCase d = [] then ''ALL'' else toUpperCase d))"

definition limitOf :: "DiscoverArgs \<Rightarrow> int" where
  "limitOf args = (case limit args of None \<Rightarrow> 20 | Some n \<Rightarrow> (if n = 0 then 20 else n))"

definition filterByDomain :: "ODataService list \<Rightarrow> string \<Rightarrow> ODataService list" where
  "filterByDomain catalogServices domainFilter =
     (if domainFilter \<noteq> ''ALL''
      then filter (\<lambda>s. domain s = Some domainFilter) catalogServices
      else catalogServices)"

text \<open>The search method and the scored services after the sort.\<close>

definition rankedServices ::
  "ODataService list \<Rightarrow> EmbeddingService option \<Rightarrow> DiscoverArgs \<Rightarrow> string \<times> ScoredService list"
  where
  "rankedServices catalogServices emb args =
     (let q = queryOf args;
          services = filterByDomain catalogServices (domainFilterOf args);
          found = withFallbackAll services q (hybridSearch emb services q (limitOf args))
      in (fst found, sortBy compareScored (snd found)))"

definition limitedResults ::
  "ODataService list \<Rightarrow> EmbeddingService option \<Rightarrow> DiscoverArgs \<Rightarrow> ScoredService list" where
  "limitedResults catalogServices emb args =
     slice0 (snd (rankedServices catalogServices emb args)) (limitOf args)"

definition getTierLabel :: "nat \<Rightarrow> string" where
  "getTierLabel t =
     (if t = 1 then ''Tier 1 (Transactional)''
      else if t = 2 then ''Tier 2 (Display)''
      else if t = 3 then ''Tier 3 (Analytics)''
      else ''Unclassified'')"

record DiscoverResult =
  r_serviceId :: string
  r_serviceName :: string
  r_useFor :: string
  r_keyEntities :: "string list option"
  r_tcode :: "string option"
  r_domain :: "string option"
  r_domainName :: string
  r_tier :: nat
  r_tierLabel :: string
  r_isPriority :: bool
  r_matchReason :: string
  r_hasMetadata :: bool

definition toResult :: "ScoredService \<Rightarrow> DiscoverResult" where
  "toResult item =
     (let s = service item; hint = getServiceHint (svcId s) in
      \<lparr>r_serviceId = svcId s,
       r_serviceName =
         (case hint of Some h \<Rightarrow> (if label h = [] then title s else label h) | None \<Rightarrow> title s),
       r_useFor =
         (case hint of
            Some h \<Rightarrow> (if useFor h = [] then description s else useFor h)
          | None \<Rightarrow> description s),
       r_keyEntities = (case hint of Some h \<Rightarrow> entities h | None \<Rightarrow> None),
       r_tcode = (case hint of Some h \<Rightarrow> tcode h | None \<Rightarrow> None),
       r_domain = domain s,
       r_domainName = getDomainDisplayName (domain s),
       r_tier = tier s,
       r_tierLabel = getTierLabel (tier s),
       r_isPriority = isPriorityService s,
       r_matchReason = matchReason item,
       r_hasMetadata = (metadata s \<noteq> None)\<rparr>)"

record DiscoverResponse =
  resp_query :: string
  resp_domain :: string
  searchMethod :: string
  totalFound :: nat
  showing :: nat
  results :: "DiscoverResult list"

text \<open>
  The \<open>response\<close> object that the tool serialises into its text. No step of the model
  outside the inner \<open>try\<close> can throw, so the outer \<open>catch\<close> has no branch here.
\<close>

definition discoverServicesAndEntities ::
  "ODataService list \<Rightarrow> EmbeddingService option \<Rightarrow> DiscoverArgs \<Rightarrow> DiscoverResponse" where
  "discoverServicesAndEntities catalogServices emb args =
     (let ranked = rankedServices catalogServices emb args;
          res = map toResult (limitedResults catalogServices emb args)
      in \<lparr>resp_query = (if queryOf args = [] then ''(all)'' else queryOf args),
          resp_domain = domainFilterOf args,
          searchMethod = fst ranked,
          totalFound = length (snd ranked),
          showing = length res,
          results = res\<rparr>)"

section \<open>Catalog discovery (discoverCatalog)\<close>

text \<open>
  \<open>discoverCatalog\<close> tags every entry of the upstream catalog with its classification
  and drops the entries that some domain excludes.
\<close>

definition tagService :: "ODataService \<Rightarrow> ODataService" where
  "tagService s =
     (let classification = classifyService (svcId s) (title s) in
      s\<lparr>domain := domain classification,
        tier := tier classification,
        priority := priority classification,
        isPriorityService := isPriorityService classification\<rparr>)"

definition discoverCatalog :: "ODataService list \<Rightarrow> ODataService list" where
  "discoverCatalog v2Services =
     filter (\<lambda>s. \<not> isExcludedService (svcId s)) (map tagService v2Services)"

text \<open>A catalog entry as the upstream catalog lists it, before tagging, and a small catalog.\<close>

definition catalogEntry :: "string \<Rightarrow> string \<Rightarrow> string \<Rightarrow> ODataService" where
  "catalogEntry i t d =
     \<lparr>domain = None, tier = 0, priority = 0, isPriorityService = False,
      svcId = i, title = t, description = d,
      url = ''/sap/opu/odata/sap/'' @ i @ ''/'',
      metadataUrl = ''/sap/opu/odata/sap/'' @ i @ ''/$metadata'',
      metadata = None\<rparr>"

definition exampleCatalog :: "ODataService list" where
  "exampleCatalog = discoverCatalog [
     catalogEntry ''ZMM_STOCK_SRV'' ''Stock overview'' ''Material stock per plant'',
     catalogEntry ''ZFAR_BALANCES_V2_SRV_0001'' ''Customer balances'' ''Balances per customer'',
     catalogEntry ''ZFAR_PAYMENT_POST_SRV_0001'' ''Incoming payments'' ''Post payments'',
     catalogEntry ''RAR_RECEIVABLE_SRV'' ''Revenue accounting'' ''Revenue recognition'',
     catalogEntry ''ZSD_BILLING_DOC_SRV'' ''Cash receipts'' ''Billing documents'',
     catalogEntry ''ZFAR_CUSTOMER_LINE_ITEMS_0001'' ''Customer line items'' ''Open items'']"

text \<open>An embedding service that is ready and whose search throws, as when the model fails.\<close>

definition failingEmbedding :: EmbeddingService where
  "failingEmbedding =
     \<lparr>isReady = True,
      searchServices = (\<lambda>q topK minScore. Inl (Error ''Embedding model not initialized''))\<rparr>"

section \<open>Stage 2 and Stage 3: the registry and its collaborators\<close>

text \<open>
  The registry's mutable state: the catalog (each service holds its lazily loaded
  metadata), the metadata cache, the user token of the registry and the one the SAP client
  holds. Two logs make the traffic to the collaborators observable: the requests issued
  through the SAP client, and the invocations of \<open>fetchServiceMetadata\<close> with their
  outcome, both oldest first.
\<close>

text \<open>
  A parameter value. A number is given by the text that \<open>Number::toString\<close> makes of
  it (\<open>4711\<close>, \<open>2.5\<close>, \<open>1e+21\<close>), an object, an array or a function by its string
  conversion: the registry reads no more of either.
\<close>

datatype jsval =
  JString string | JNumber string | JBool bool | JNull | JUndefined | JObject string

text \<open>\<open>String(v)\<close>, which is also what a template literal makes of \<open>v\<close>.\<close>

fun String_js :: "jsval \<Rightarrow> string" where
  "String_js (JString s) = s"
| "String_js (JNumber rendering) = rendering"
| "String_js (JBool b) = (if b then ''true'' else ''false'')"
| "String_js JNull = ''null''"
| "String_js JUndefined = ''undefined''"
| "String_js (JObject rendering) = rendering"

text \<open>
  The parameters are a plain object: the list holds its own properties, and it inherits
  the members of \<open>Object.prototype\<close>. An inherited member is a native function, whose
  string conversion in Node is \<open>function name() { [native code] }\<close>; \<open>constructor\<close> is
  the function \<open>Object\<close>, and \<open>__proto__\<close> is the prototype object itself.
\<close>

type_synonym parameters = "(string \<times> jsval) list"

record QueryOptions =
  q_filter :: "string option"
  q_select :: "string option"
  q_expand :: "string option"
  q_orderby :: "string option"
  q_top :: "int option"
  q_skip :: "int option"

datatype SapCall =
    ReadEntitySet string "string option" QueryOptions
  | ReadEntity string "string option" string
  | CreateEntity string "string option" parameters
  | UpdateEntity string "string option" string parameters
  | DeleteEntity string "string option" string

record Registry =
  catalogServices :: "ODataService list"
  metadataCache :: "(string \<times> ServiceMetadata) list"
  userToken :: "string option"
  sapUserToken :: "string option"
  sapCalls :: "SapCall list"
  fetches :: "(string \<times> bool) list"

text \<open>
  The collaborators: the schema provider and the SAP client's request. Either may throw.
  The number is the count of earlier invocations, so that an answer may change over time.
\<close>

record Upstream =
  fetchServiceMetadata :: "nat \<Rightarrow> ODataService \<Rightarrow> exn + ServiceMetadata"
  sapRequest :: "nat \<Rightarrow> SapCall \<Rightarrow> exn + string"

fun findIndex :: "('a \<Rightarrow> bool) \<Rightarrow> 'a list \<Rightarrow> nat option" where
  "findIndex P [] = None"
| "findIndex P (x # xs) =
     (if P x then Some 0 else (case findIndex P xs of None \<Rightarrow> None | Some i \<Rightarrow> Some (Suc i)))"

text \<open>\<open>Map.prototype.set\<close> on the association list of the cache.\<close>

definition cacheSet ::
  "string \<Rightarrow> ServiceMetadata \<Rightarrow> (string \<times> ServiceMetadata) list \<Rightarrow> (string \<times> ServiceMetadata) list"
  where
  "cacheSet k v cache = (k, v) # filter (\<lambda>kv. fst kv \<noteq> k) cache"

text \<open>
  "Lazy load metadata if not cached", the block that \<open>getEntityMetadata\<close> and
  \<open>executeOperation\<close> both have, for the service at position \<open>i\<close> of the catalog:
  the metadata on the service, else the cache entry, else a fetch that is stored on the
  service and in the cache when it succeeds.
\<close>

definition ensureMetadata ::
  "Upstream \<Rightarrow> Registry \<Rightarrow> nat \<Rightarrow> (exn + ServiceMetadata) \<times> Registry" where
  "ensureMetadata up st i =
     (let s = catalogServices st ! i in
      case metadata s of
        Some m \<Rightarrow> (Inr m, st)
      | None \<Rightarrow>
          (case map_of (metadataCache st) (svcId s) of
             Some m \<Rightarrow>
               (Inr m, st\<lparr>catalogServices := (catalogServices st)[i := s\<lparr>metadata := Some m\<rparr>]\<rparr>)
           | None \<Rightarrow>
               (case fetchServiceMetadata up (length (fetches st)) s of
                  Inl fetchError \<Rightarrow>
                    (Inl fetchError, st\<lparr>fetches := fetches st @ [(svcId s, False)]\<rparr>)
                | Inr m \<Rightarrow>
                    (Inr m,
                     st\<lparr>catalogServices := (catalogServices st)[i := s\<lparr>metadata := Some m\<rparr>],
                        metadataCache := cacheSet (svcId s) m (metadataCache st),
                        fetches := fetches st @ [(svcId s, True)]\<rparr>))))"

subsection \<open>get-entity-metadata\<close>

record EntityMetadataResponse =
  m_serviceId :: string
  m_entityName :: string
  m_entitySet :: "string option"
  m_keyProperties :: "string list"
  m_propertyCount :: nat
  m_creatable :: bool
  m_updatable :: bool
  m_deletable :: bool
  m_properties :: "(Property \<times> bool) list"

definition renderError :: "exn \<Rightarrow> string" where
  "renderError e = (case e of Error msg \<Rightarrow> ''Error: '' @ msg)"

definition errorMessage :: "exn \<Rightarrow> string" where
  "errorMessage e = (case e of Error msg \<Rightarrow> msg)"

text \<open>\<open>Inl\<close> is the text of an \<open>isError\<close> response.\<close>

definition getEntityMetadata ::
  "Upstream \<Rightarrow> Registry \<Rightarrow> string \<Rightarrow> string \<Rightarrow> (string + EntityMetadataResponse) \<times> Registry"
  where
  "getEntityMetadata up st serviceId entityName =
     (if serviceId = [] \<or> entityName = []
      then (Inl ''ERROR: Both serviceId and entityName are required.'', st)
      else
        (case findIndex (\<lambda>s. svcId s = serviceId) (catalogServices st) of
           None \<Rightarrow> (Inl (''ERROR: Service not found: '' @ serviceId), st)
         | Some i \<Rightarrow>
             (case ensureMetadata up st i of
                (Inl fetchError, st') \<Rightarrow>
                  (Inl (''ERROR: Failed to load metadata for '' @ serviceId @ '': ''
                        @ renderError fetchError), st')
              | (Inr m, st') \<Rightarrow>
                  (case find (\<lambda>e. ename e = entityName) (entityTypes m) of
                     None \<Rightarrow>
                       (Inl (''ERROR: Entity '' @ [CHR 0x27] @ entityName @ [CHR 0x27]
                             @ '' not found in '' @ serviceId @ ''.'' @ [CHR 0x0A, CHR 0x0A]
                             @ ''Available entities: ''
                             @ (if join '', '' (map ename (entityTypes m)) = [] then ''none''
                                else join '', '' (map ename (entityTypes m)))), st')
                   | Some entityType \<Rightarrow>
                       (Inr \<lparr>m_serviceId = svcId (catalogServices st' ! i),
                             m_entityName = ename entityType,
                             m_entitySet = entitySet entityType,
                             m_keyProperties = keys entityType,
                             m_propertyCount = length (properties entityType),
                             m_creatable = creatable entityType,
                             m_updatable = updatable entityType,
                             m_deletable = deletable entityType,
                             m_properties =
                               map (\<lambda>prop. (prop, pname prop \<in> set (keys entityType)))
                                 (properties entityType)\<rparr>, st')))))"

subsection \<open>execute-sap-operation\<close>

text \<open>\<open>buildKeyValue\<close>. The parts of a composite key are built in declaration order, so
  the first key that the parameters lack is the one the exception names.\<close>

definition objectPrototypeMembers :: "string list" where
  "objectPrototypeMembers =
     [''constructor'', ''__defineGetter__'', ''__defineSetter__'', ''hasOwnProperty'',
      ''__lookupGetter__'', ''__lookupSetter__'', ''isPrototypeOf'', ''propertyIsEnumerable'',
      ''toString'', ''valueOf'', ''__proto__'', ''toLocaleString'']"

definition inheritedMember :: "string \<Rightarrow> jsval" where
  "inheritedMember k =
     (if k = ''__proto__'' then JObject ''[object Object]''
      else JObject (''function '' @ (if k = ''constructor'' then ''Object'' else k)
                    @ ''() { [native code] }''))"

text \<open>\<open>key in parameters\<close>: an own property, or a member inherited from the prototype.\<close>

definition hasKey :: "parameters \<Rightarrow> string \<Rightarrow> bool" where
  "hasKey ps k = (map_of ps k \<noteq> None \<or> k \<in> set objectPrototypeMembers)"

text \<open>\<open>parameters[key]\<close>.\<close>

definition paramValue :: "parameters \<Rightarrow> string \<Rightarrow> jsval" where
  "paramValue ps k =
     (case map_of ps k of
        Some v \<Rightarrow> v
      | None \<Rightarrow> (if k \<in> set objectPrototypeMembers then inheritedMember k else JUndefined))"

fun compositeParts :: "string list \<Rightarrow> parameters \<Rightarrow> exn + string list" where
  "compositeParts [] ps = Inr []"
| "compositeParts (key # rest) ps =
     (if \<not> hasKey ps key then Inl (Error (''Missing key: '' @ key))
      else (case compositeParts rest ps of
              Inl e \<Rightarrow> Inl e
            | Inr parts \<Rightarrow>
                Inr ((key @ ''='' @ [CHR 0x27] @ String_js (paramValue ps key) @ [CHR 0x27]) # parts)))"

definition buildKeyValue :: "EntityType \<Rightarrow> parameters \<Rightarrow> exn + string" where
  "buildKeyValue entityType ps =
     (if length (keys entityType) = 1 then
        (let keyName = hd (keys entityType) in
         if \<not> hasKey ps keyName then Inl (Error (''Missing key: '' @ keyName))
         else Inr (String_js (paramValue ps keyName)))
      else (case compositeParts (keys entityType) ps of
              Inl e \<Rightarrow> Inl e
            | Inr parts \<Rightarrow> Inr (join '','' parts)))"

record ExecuteArgs =
  a_serviceId :: string
  a_entityName :: string
  a_operation :: string
  a_parameters :: "parameters option"
  filterString :: "string option"
  selectString :: "string option"
  expandString :: "string option"
  orderbyString :: "string option"
  topNumber :: "int option"
  skipNumber :: "int option"

definition validOps :: "string list" where
  "validOps = [''read'', ''read-single'', ''create'', ''update'', ''delete'']"

text \<open>A query option is set when its argument is truthy: a non-empty string, a number
  other than \<open>0\<close>. The numbers of \<open>topNumber\<close> and \<open>skipNumber\<close> are integers of
  fewer than 22 digits, which print in plain decimal.\<close>

definition truthyString :: "string option \<Rightarrow> string option" where
  "truthyString v = (case v of Some s \<Rightarrow> (if s = [] then None else Some s) | None \<Rightarrow> None)"

definition truthyNumber :: "int option \<Rightarrow> int option" where
  "truthyNumber v = (case v of Some n \<Rightarrow> (if n = 0 then None else Some n) | None \<Rightarrow> None)"

definition queryOptionsOf :: "ExecuteArgs \<Rightarrow> QueryOptions" where
  "queryOptionsOf args =
     \<lparr>q_filter = truthyString (filterString args),
      q_select = truthyString (selectString args),
      q_expand = truthyString (expandString args),
      q_orderby = truthyString (orderbyString args),
      q_top = truthyNumber (topNumber args),
      q_skip = truthyNumber (skipNumber args)\<rparr>"

text \<open>"Set user token if available": the registry's token goes to the SAP client.\<close>

definition handToken :: "Registry \<Rightarrow> Registry" where
  "handToken st =
     (case truthyString (userToken st) of Some t \<Rightarrow> st\<lparr>sapUserToken := Some t\<rparr> | None \<Rightarrow> st)"

datatype OperationData = Response string | Deleted string

record OperationResult =
  opDescription :: string
  opData :: OperationData

text \<open>One request through the SAP client: it is logged, and its answer or exception
  comes from the collaborator.\<close>

definition sapCall :: "Upstream \<Rightarrow> Registry \<Rightarrow> SapCall \<Rightarrow> (exn + string) \<times> Registry" where
  "sapCall up st call =
     (sapRequest up (length (sapCalls st)) call, st\<lparr>sapCalls := sapCalls st @ [call]\<rparr>)"

text \<open>The \<open>switch\<close> of \<open>executeOperation\<close>, after the user token has been handed on.\<close>

definition runOperation ::
  "Upstream \<Rightarrow> Registry \<Rightarrow> ODataService \<Rightarrow> EntityType \<Rightarrow> ExecuteArgs \<Rightarrow> string
     \<Rightarrow> (exn + OperationResult) \<times> Registry" where
  "runOperation up st s entityType args operation =
     (let entityName = a_entityName args;
          ps = (case a_parameters args of Some p \<Rightarrow> p | None \<Rightarrow> []);
          queryOptions = queryOptionsOf args in
      if operation = ''read'' then
        (let d = ''Reading '' @ entityName
               @ (case q_top queryOptions of Some n \<Rightarrow> '' (top '' @ showInt n @ '')'' | None \<Rightarrow> [])
               @ (case q_filter queryOptions of Some f \<Rightarrow> '' where '' @ f | None \<Rightarrow> []) in
         case sapCall up st (ReadEntitySet (url s) (entitySet entityType) queryOptions) of
           (Inl e, st') \<Rightarrow> (Inl e, st')
         | (Inr data, st') \<Rightarrow> (Inr \<lparr>opDescription = d, opData = Response data\<rparr>, st'))
      else if operation = ''read-single'' then
        (case buildKeyValue entityType ps of
           Inl e \<Rightarrow> (Inl e, st)
         | Inr keyValue \<Rightarrow>
             (case sapCall up st (ReadEntity (url s) (entitySet entityType) keyValue) of
                (Inl e, st') \<Rightarrow> (Inl e, st')
              | (Inr data, st') \<Rightarrow>
                  (Inr \<lparr>opDescription = ''Reading single '' @ entityName @ '' with key: '' @ keyValue,
                        opData = Response data\<rparr>, st')))
      else if operation = ''create'' then
        (if \<not> creatable entityType
         then (Inl (Error (''Entity '' @ [CHR 0x27] @ entityName @ [CHR 0x27] @ '' is not creatable'')), st)
         else
           (case sapCall up st (CreateEntity (url s) (entitySet entityType) ps) of
              (Inl e, st') \<Rightarrow> (Inl e, st')
            | (Inr data, st') \<Rightarrow>
                (Inr \<lparr>opDescription = ''Creating '' @ entityName, opData = Response data\<rparr>, st')))
      else if operation = ''update'' then
        (if \<not> updatable entityType
         then (Inl (Error (''Entity '' @ [CHR 0x27] @ entityName @ [CHR 0x27] @ '' is not updatable'')), st)
         else
           (case buildKeyValue entityType ps of
              Inl e \<Rightarrow> (Inl e, st)
            | Inr updateKey \<Rightarrow>
                (let updateData = filter (\<lambda>kv. fst kv \<notin> set (keys entityType)) ps in
                 case sapCall up st (UpdateEntity (url s) (entitySet entityType) updateKey updateData) of
                   (Inl e, st') \<Rightarrow> (Inl e, st')
                 | (Inr data, st') \<Rightarrow>
                     (Inr \<lparr>opDescription = ''Updating '' @ entityName @ '' with key: '' @ updateKey,
                           opData = Response data\<rparr>, st'))))
      else
        (if \<not> deletable entityType
         then (Inl (Error (''Entity '' @ [CHR 0x27] @ entityName @ [CHR 0x27] @ '' is not deletable'')), st)
         else
           (case buildKeyValue entityType ps of
              Inl e \<Rightarrow> (Inl e, st)
            | Inr deleteKey \<Rightarrow>
                (case sapCall up st (DeleteEntity (url s) (entitySet entityType) deleteKey) of
                   (Inl e, st') \<Rightarrow> (Inl e, st')
                 | (Inr data, st') \<Rightarrow>
                     (Inr \<lparr>opDescription = ''Deleting '' @ entityName @ '' with key: '' @ deleteKey,
                           opData = Deleted (''Deleted '' @ entityName @ '': '' @ deleteKey)\<rparr>, st')))))"

text \<open>\<open>Inl\<close> is the message of the exception that the outer \<open>catch\<close> turns into the
  \<open>[LEVEL 3 - ERROR]\<close> response.\<close>

definition executeOperation ::
  "Upstream \<Rightarrow> Registry \<Rightarrow> ExecuteArgs \<Rightarrow> (string + OperationResult) \<times> Registry" where
  "executeOperation up st args =
     (let serviceId = a_serviceId args;
          entityName = a_entityName args;
          operation = toLowerCase (a_operation args) in
      if operation \<notin> set validOps
      then (Inl (''Invalid operation: '' @ operation @ ''. Valid: '' @ join '', '' validOps), st)
      else
        (case findIndex (\<lambda>s. svcId s = serviceId) (catalogServices st) of
           None \<Rightarrow> (Inl (''Service not found: '' @ serviceId), st)
         | Some i \<Rightarrow>
             (case ensureMetadata up st i of
                (Inl fetchError, st1) \<Rightarrow> (Inl (errorMessage fetchError), st1)
              | (Inr m, st1) \<Rightarrow>
                  (case find (\<lambda>e. ename e = entityName) (entityTypes m) of
                     None \<Rightarrow>
                       (Inl (''Entity '' @ [CHR 0x27] @ entityName @ [CHR 0x27]
                             @ '' not found in '' @ serviceId), st1)
                   | Some entityType \<Rightarrow>
                       (let st2 = handToken st1
                        in case runOperation up st2 (catalogServices st2 ! i) entityType args operation of
                             (Inl e, st3) \<Rightarrow> (Inl (errorMessage e), st3)
                           | (Inr r, st3) \<Rightarrow> (Inr r, st3))))))"

text \<open>A call of either tool, and a sequence of calls run one after the other.\<close>

datatype ToolCall = Inspect string string | Act ExecuteArgs

definition runCall :: "Upstream \<Rightarrow> Registry \<Rightarrow> ToolCall \<Rightarrow> Registry" where
  "runCall up st c =
     (case c of
        Inspect serviceId entityName \<Rightarrow> snd (getEntityMetadata up st serviceId entityName)
      | Act args \<Rightarrow> snd (executeOperation up st args))"

definition runCalls :: "Upstream \<Rightarrow> Registry \<Rightarrow> ToolCall list \<Rightarrow> Registry" where
  "runCalls up st cs = foldl (runCall up) st cs"

text \<open>The registry after construction, over a catalog without metadata.\<close>

definition initialRegistry :: "ODataService list \<Rightarrow> Registry" where
  "initialRegistry services =
     \<lparr>catalogServices = services, metadataCache = [], userToken = None, sapUserToken = None,
      sapCalls = [], fetches = []\<rparr>"

section \<open>Capability flags and fetch bookkeeping, for the statements below\<close>

text \<open>The flag that a mutation needs, and the word the exception uses for it.\<close>

definition permits :: "string \<Rightarrow> EntityType \<Rightarrow> bool" where
  "permits operation e =
     (if operation = ''create'' then creatable e
      else if operation = ''update'' then updatable e
      else if operation = ''delete'' then deletable e
      else True)"

definition capabilityWord :: "string \<Rightarrow> string" where
  "capabilityWord operation =
     (if operation = ''create'' then ''creatable''
      else if operation = ''update'' then ''updatable''
      else ''deletable'')"

text \<open>
  \<open>fetchedOnce\<close>: no service identifier has two successful fetches in the log, and each
  successful fetch has its cache entry. \<open>schemaKnown\<close>: the schema of the service is in the
  cache or on the catalog entry that \<open>find\<close> returns. \<open>targetOf\<close>: the service a call
  addresses.
\<close>

definition fetchedOnce :: "Registry \<Rightarrow> bool" where
  "fetchedOnce st =
     (distinct (filter snd (fetches st))
      \<and> list_all (\<lambda>f. map_of (metadataCache st) (fst f) \<noteq> None) (filter snd (fetches st)))"

definition schemaKnown :: "Registry \<Rightarrow> string \<Rightarrow> bool" where
  "schemaKnown st serviceId =
     (map_of (metadataCache st) serviceId \<noteq> None
      \<or> (case findIndex (\<lambda>s. svcId s = serviceId) (catalogServices st) of
            Some i \<Rightarrow> metadata (catalogServices st ! i) \<noteq> None
          | None \<Rightarrow> False))"

fun targetOf :: "ToolCall \<Rightarrow> string" where
  "targetOf (Inspect serviceId entityName) = serviceId"
| "targetOf (Act args) = a_serviceId args"

section \<open>The per-field score of the specification\<close>

text \<open>
  The score of one field as the specification words it: the full weight for a substring
  match of the whole query; otherwise \<open>0.9\<close> times the weight when the query has several
  words and all are present; otherwise \<open>0.85\<close> times the weight when its single word is
  present; otherwise nothing. An empty field scores nothing. The words are those that
  \<open>patternSearch\<close> keeps.
\<close>

definition fieldScore :: "string \<Rightarrow> SearchTarget \<Rightarrow> real" where
  "fieldScore queryLower target =
     (let ws = queryWordsOf queryLower in
      if ttext target = [] then 0
      else if str_includes (ttext target) queryLower then weight target
      else if length ws > 1 \<and> list_all (\<lambda>w. str_includes (ttext target) w) ws
        then weight target * 0.9
      else if length ws = 1 \<and> str_includes (ttext target) (hd ws)
        then weight target * 0.85
      else 0)"

section \<open>The embedding snapshot (EmbeddingService.loadCache)\<close>

record EmbeddingCache =
  version :: string
  model :: string
  timestamp :: int
  entityCount :: int
  embeddings :: "(string \<times> real list) list"

definition CACHE_VERSION :: string where "CACHE_VERSION = ''1.0''"
definition MODEL_NAME :: string where "MODEL_NAME = ''Xenova/all-MiniLM-L6-v2''"

definition SKIP_PATTERNS :: "regexp list" where
  "SKIP_PATTERNS = [
     rx_start [Lit ''VL_''],
     rx_start [Lit ''I_''],
     rx_start [Lit ''SAP__''],
     rx_start [Lit ''P_''],
     rx_end [Lit ''Parameters''],
     rx_start [Lit ''_''],
     rx [Lit ''DraftAdministrativeData'']]"

definition shouldSkipEntity :: "string \<Rightarrow> bool" where
  "shouldSkipEntity entityName = list_ex (\<lambda>pattern. test pattern entityName) SKIP_PATTERNS"

definition entitiesOf :: "ODataService \<Rightarrow> EntityType list" where
  "entitiesOf s = (case metadata s of Some m \<Rightarrow> entityTypes m | None \<Rightarrow> [])"

text \<open>The \<open>reduce\<close> of \<open>loadCache\<close>: the business entities of the current services.\<close>

definition expectedCountOf :: "ODataService list \<Rightarrow> nat" where
  "expectedCountOf currentServices =
     foldl (\<lambda>sum s. sum + length (filter (\<lambda>e. \<not> shouldSkipEntity (ename e)) (entitiesOf s)))
       0 currentServices"

text \<open>
  \<open>loadCache\<close> on the parsed cache file (\<open>None\<close>: no file, or reading or parsing threw)
  and the embeddings held so far; it returns whether the cache was loaded, and the
  embeddings after the call. \<open>Math.floor(expectedCount * 0.05)\<close> is \<open>expectedCount div 20\<close>:
  the double nearest to \<open>0.05\<close> lies above it, so the product never falls below an integer
  quotient.
\<close>

definition loadCache ::
  "EmbeddingCache option \<Rightarrow> ODataService list option \<Rightarrow> (string \<times> real list) list
     \<Rightarrow> bool \<times> (string \<times> real list) list" where
  "loadCache file currentServices current =
     (case file of
        None \<Rightarrow> (False, current)
      | Some cache \<Rightarrow>
          (if version cache \<noteq> CACHE_VERSION then (False, current)
           else if model cache \<noteq> MODEL_NAME then (False, current)
           else
             (case currentServices of
                Some services \<Rightarrow>
                  (let expectedCount = expectedCountOf services;
                       tolerance = max 10 (expectedCount div 20)
                   in if \<bar>entityCount cache - int expectedCount\<bar> > int tolerance
                      then (False, current)
                      else (True, embeddings cache))
              | None \<Rightarrow> (True, embeddings cache))))"

text \<open>The head of \<open>indexEntities\<close>: a loaded cache ends the call, anything else goes on
  to embed every business entity again.\<close>

datatype IndexOutcome = LoadedFromCache | Reindexed

definition indexEntitiesOutcome ::
  "EmbeddingCache option \<Rightarrow> ODataService list \<Rightarrow> bool \<Rightarrow> (string \<times> real list) list \<Rightarrow> IndexOutcome"
  where
  "indexEntitiesOutcome file services forceReindex current =
     (if \<not> forceReindex \<and> fst (loadCache file (Some services) current) then LoadedFromCache
      else Reindexed)"

text \<open>\<open>computeServicesHash\<close>, a private method that nothing calls.\<close>

definition computeServicesHash :: "ODataService list \<Rightarrow> string" where
  "computeServicesHash services =
     (let serviceIds = join '','' (sort (map svcId services));
          entityCounts = join '','' (map (\<lambda>s. showNat (length (entitiesOf s))) services)
      in serviceIds @ ''|'' @ entityCounts)"

section \<open>Example registry\<close>

definition itemEntity :: EntityType where
  "itemEntity =
     \<lparr>ename = ''Item'', entitySet = Some ''Items'',
      properties = [
        \<lparr>pname = ''CompanyCode'', ptype = ''Edm.String'', nullable = False, maxLength = Some ''4''\<rparr>,
        \<lparr>pname = ''Document'', ptype = ''Edm.String'', nullable = False, maxLength = Some ''10''\<rparr>,
        \<lparr>pname = ''Line'', ptype = ''Edm.String'', nullable = False, maxLength = Some ''3''\<rparr>,
        \<lparr>pname = ''Amount'', ptype = ''Edm.Decimal'', nullable = True, maxLength = None\<rparr>],
      keys = [''CompanyCode'', ''Document'', ''Line''],
      creatable = False, updatable = True, deletable = False\<rparr>"

definition customerEntity :: EntityType where
  "customerEntity =
     \<lparr>ename = ''Customer'', entitySet = Some ''Customers'',
      properties = [
        \<lparr>pname = ''Customer'', ptype = ''Edm.String'', nullable = False, maxLength = Some ''10''\<rparr>,
        \<lparr>pname = ''Name'', ptype = ''Edm.String'', nullable = True, maxLength = Some ''80''\<rparr>],
      keys = [''Customer''],
      creatable = False, updatable = False, deletable = False\<rparr>"

definition exampleMetadata :: ServiceMetadata where
  "exampleMetadata = \<lparr>entityTypes = [itemEntity, customerEntity]\<rparr>"

text \<open>A schema provider that answers, one that always throws, and a data service that
  answers every request with an empty object.\<close>

definition exampleUpstream :: Upstream where
  "exampleUpstream =
     \<lparr>fetchServiceMetadata = (\<lambda>n s. Inr exampleMetadata),
      sapRequest = (\<lambda>n call. Inr ''{}'')\<rparr>"

definition failingUpstream :: Upstream where
  "failingUpstream =
     \<lparr>fetchServiceMetadata = (\<lambda>n s. Inl (Error ''Request failed with status code 503'')),
      sapRequest = (\<lambda>n call. Inr ''{}'')\<rparr>"

definition lineItems :: string where
  "lineItems = ''ZFAR_CUSTOMER_LINE_ITEMS_0001''"

definition actArgs :: "string \<Rightarrow> string \<Rightarrow> parameters \<Rightarrow> ExecuteArgs" where
  "actArgs entityName operation ps =
     \<lparr>a_serviceId = lineItems, a_entityName = entityName, a_operation = operation,
      a_parameters = Some ps, filterString = None, selectString = None, expandString = None,
      orderbyString = None, topNumber = None, skipNumber = None\<rparr>"

text \<open>The registry after one Stage 2 call has loaded the schema of the line item service.\<close>

definition warmRegistry :: Registry where
  "warmRegistry =
     snd (getEntityMetadata exampleUpstream (initialRegistry exampleCatalog) lineItems ''Item'')"

text \<open>Two corpora with one service each, and the snapshot written for the first.\<close>

definition corpusA :: "ODataService list" where
  "corpusA = [(catalogEntry ''ZFAR_BALANCES_V2_SRV_0001'' ''Customer balances'' ''Balances'')
                \<lparr>metadata := Some \<lparr>entityTypes = [itemEntity, customerEntity,
                    itemEntity\<lparr>ename := ''UpdatableItem''\<rparr>]\<rparr>\<rparr>]"

definition corpusB :: "ODataService list" where
  "corpusB = [(catalogEntry ''ZSD_BILLING_DOC_SRV'' ''Billing'' ''Billing documents'')
                \<lparr>metadata := Some exampleMetadata\<rparr>]"

definition snapshotA :: EmbeddingCache where
  "snapshotA =
     \<lparr>version = CACHE_VERSION, model = MODEL_NAME, timestamp = 0, entityCount = 3,
      embeddings = [(''ZFAR_BALANCES_V2_SRV_0001::Item'', [1, 0]),
                    (''ZFAR_BALANCES_V2_SRV_0001::Customer'', [0, 1]),
                    (''ZFAR_BALANCES_V2_SRV_0001::UpdatableItem'', [1, 1])]\<rparr>"

section \<open>The business-priority order of the specification\<close>

text \<open>
  The order as the specification words it: a priority service precedes any other; within
  the same flag a classified tier precedes the unclassified tier \<open>0\<close> and a lower tier a
  higher one; then the lower priority score; then the higher search score.
  \<open>businessBefore a b\<close> says that \<open>a\<close> strictly precedes \<open>b\<close>.
\<close>

definition businessBefore :: "ScoredService \<Rightarrow> ScoredService \<Rightarrow> bool" where
  "businessBefore a b =
     (let sa = service a; sb = service b in
      (isPriorityService sa \<and> \<not> isPriorityService sb) \<or>
      (isPriorityService sa = isPriorityService sb \<and>
        ((tier sa \<noteq> 0 \<and> (tier sb = 0 \<or> tier sa < tier sb)) \<or>
         (tier sa = tier sb \<and>
           (priority sa < priority sb \<or>
            (priority sa = priority sb \<and> score b < score a))))))"

text \<open>The flag, tier and priority keys that the comparator works on.\<close>

definition pkey :: "ScoredService \<Rightarrow> nat \<times> nat \<times> nat" where
  "pkey a = (if isPriorityService (service a) then 0 else 1,
             if tier (service a) = 0 then 99 else tier (service a),
             if priority (service a) = 0 then 100 else priority (service a))"

section \<open>Exclusion dominates inclusion\<close>

lemma toUpperChar_code:
  "toUpperChar c =
     (let n = (of_char c :: nat) in if 97 \<le> n \<and> n \<le> 122 then char_of (n - 32) else c)"
  by (cases c) (auto simp: Let_def char_of_def bit_Suc_0_iff)

lemma toLowerChar_code:
  "toLowerChar c =
     (let n = (of_char c :: nat) in if 65 \<le> n \<and> n \<le> 90 then char_of (n + 32) else c)"
  by (cases c) (auto simp: Let_def char_of_def bit_Suc_0_iff)

lemma toUpperChar_idem: "toUpperChar (toUpperChar c) = toUpperChar c"
  by (cases c) auto

lemma toUpperCase_idem: "toUpperCase (toUpperCase s) = toUpperCase s"
  by (simp add: toUpperCase_def toUpperChar_idem)

lemma test_ignoreCase_upper: "ignoreCase r \<Longrightarrow> test r (toUpperCase s) = test r s"
  by (simp add: test_def toUpperCase_idem)

lemma classifyWith_domain_in_names:
  "domain (classifyWith configs serviceId ttl) = Some d \<Longrightarrow> d \<in> name ` set configs"
  by (induction configs) (auto simp: Let_def split: if_splits)

lemma classifyWith_excluded:
  assumes "c \<in> set configs"
    and "distinct (map name configs)"
    and "matchesAny (toUpperCase serviceId) (excludePatterns c)"
  shows "domain (classifyWith configs serviceId ttl) \<noteq> Some (name c)"
  using assms
proof (induction configs)
  case Nil
  then show ?case by simp
next
  case (Cons config rest)
  show ?case
  proof (cases "c = config")
    case True
    have "name config \<notin> name ` set rest"
      using Cons.prems(2) by simp
    then have "domain (classifyWith rest serviceId ttl) \<noteq> Some (name config)"
      using classifyWith_domain_in_names by blast
    with True Cons.prems(3) show ?thesis by simp
  next
    case False
    then have in_rest: "c \<in> set rest"
      using Cons.prems(1) by simp
    then have "name c \<in> name ` set rest"
      by (rule imageI)
    moreover have "name config \<notin> name ` set rest"
      using Cons.prems(2) by simp
    ultimately have "name c \<noteq> name config"
      by metis
    moreover have "domain (classifyWith rest serviceId ttl) \<noteq> Some (name c)"
      using Cons.IH in_rest Cons.prems(2,3) by simp
    ultimately show ?thesis by (simp add: Let_def)
  qed
qed

lemma DOMAIN_CONFIGS_names: "map name DOMAIN_CONFIGS = [''AR'', ''SD'', ''FI'']"
  by (simp add: DOMAIN_CONFIGS_def AR_CONFIG_def SD_CONFIG_def FI_CONFIG_def)

lemma DOMAIN_CONFIGS_exclude_ignoreCase:
  "c \<in> set DOMAIN_CONFIGS \<Longrightarrow> r \<in> set (excludePatterns c) \<Longrightarrow> ignoreCase r"
  by (auto simp: DOMAIN_CONFIGS_def AR_CONFIG_def SD_CONFIG_def FI_CONFIG_def rxi_start_def)

text \<open>
  C2. Whenever the service identifier matches an exclude pattern of a configured domain,
  \<open>classifyService\<close> does not assign that domain, whatever the identifier or the title
  match among the domain's inclusion patterns.
\<close>

theorem classifyService_exclusion_dominates:
  assumes "c \<in> set DOMAIN_CONFIGS"
    and "matchesAny serviceId (excludePatterns c)"
  shows "domain (classifyService serviceId ttl) \<noteq> Some (name c)"
proof -
  have "matchesAny (toUpperCase serviceId) (excludePatterns c)"
    using assms DOMAIN_CONFIGS_exclude_ignoreCase [of c]
    by (auto simp: matchesAny_def list_ex_iff test_ignoreCase_upper)
  moreover have "distinct (map name DOMAIN_CONFIGS)"
    by (simp add: DOMAIN_CONFIGS_names)
  ultimately show ?thesis
    unfolding classifyService_def using assms(1) classifyWith_excluded by blast
qed


theorem classifyService_exclusion_dominates_witness:
  "AR_CONFIG \<in> set DOMAIN_CONFIGS
   \<and> matchesAny ''RAR_RECEIVABLE_SRV'' (excludePatterns AR_CONFIG)
   \<and> matchesAny ''RAR_RECEIVABLE_SRV'' (prefixes AR_CONFIG)
   \<and> domain (classifyService ''RAR_RECEIVABLE_SRV'' ''Receivables'') \<noteq> Some (name AR_CONFIG)"
proof -
  have c: "AR_CONFIG \<in> set DOMAIN_CONFIGS"
    by (simp add: DOMAIN_CONFIGS_def)
  have ex: "matchesAny ''RAR_RECEIVABLE_SRV'' (excludePatterns AR_CONFIG)"
    by code_simp
  have inc: "matchesAny ''RAR_RECEIVABLE_SRV'' (prefixes AR_CONFIG)"
    by code_simp
  show ?thesis
    using c ex inc classifyService_exclusion_dominates [OF c ex, of "''Receivables''"] by simp
qed

section \<open>Reranking by business priority\<close>

lemma compareScored_le_iff:
  "compareScored a b \<le> 0 \<longleftrightarrow>
     (fst (pkey a) < fst (pkey b) \<or> fst (pkey a) = fst (pkey b) \<and>
       (fst (snd (pkey a)) < fst (snd (pkey b)) \<or> fst (snd (pkey a)) = fst (snd (pkey b)) \<and>
         (snd (snd (pkey a)) < snd (snd (pkey b)) \<or> snd (snd (pkey a)) = snd (snd (pkey b)) \<and>
            score b \<le> score a)))"
  by (auto simp: compareScored_def pkey_def Let_def)

lemma compareScored_total: "compareScored a b \<le> 0 \<or> compareScored b a \<le> 0"
  unfolding compareScored_le_iff by linarith

lemma compareScored_trans:
  "compareScored a b \<le> 0 \<Longrightarrow> compareScored b c \<le> 0 \<Longrightarrow> compareScored a c \<le> 0"
  unfolding compareScored_le_iff by (elim disjE conjE) simp_all

lemma set_insertBy: "set (insertBy cmp x ys) = insert x (set ys)"
  by (induction ys) auto

lemma mset_insertBy: "mset (insertBy cmp x ys) = add_mset x (mset ys)"
  by (induction ys) auto

lemma mset_sortBy: "mset (sortBy cmp xs) = mset xs"
  by (induction xs) (auto simp: sortBy_def mset_insertBy)

lemma sorted_insertBy:
  assumes tot: "\<And>a b. cmp a b \<le> 0 \<or> cmp b a \<le> 0"
    and trans: "\<And>a b c. cmp a b \<le> 0 \<Longrightarrow> cmp b c \<le> 0 \<Longrightarrow> cmp a c \<le> 0"
  shows "sorted_wrt (\<lambda>a b. cmp a b \<le> 0) ys \<Longrightarrow> sorted_wrt (\<lambda>a b. cmp a b \<le> 0) (insertBy cmp x ys)"
proof (induction ys)
  case Nil
  then show ?case by simp
next
  case (Cons y ys)
  show ?case
  proof (cases "cmp x y \<le> 0")
    case True
    then have "\<forall>z\<in>set ys. cmp x z \<le> 0"
      using Cons.prems trans by auto
    with True Cons.prems show ?thesis by simp
  next
    case False
    then have "cmp y x \<le> 0" using tot by blast
    with False Cons show ?thesis by (auto simp: set_insertBy)
  qed
qed

lemma sorted_sortBy:
  assumes "\<And>a b. cmp a b \<le> 0 \<or> cmp b a \<le> 0"
    and "\<And>a b c. cmp a b \<le> 0 \<Longrightarrow> cmp b c \<le> 0 \<Longrightarrow> cmp a c \<le> 0"
  shows "sorted_wrt (\<lambda>a b. cmp a b \<le> 0) (sortBy cmp xs)"
proof (induction xs)
  case Nil
  then show ?case by (simp add: sortBy_def)
next
  case (Cons x xs)
  have "sortBy cmp (x # xs) = insertBy cmp x (sortBy cmp xs)"
    by (simp add: sortBy_def)
  with Cons sorted_insertBy [of cmp, OF assms] show ?case by simp
qed

lemma compareScored_business:
  assumes ta: "tier (service a) \<le> 3" and tb: "tier (service b) \<le> 3"
    and pa: "0 < priority (service a)" and pb: "0 < priority (service b)"
    and le: "compareScored a b \<le> 0"
  shows "\<not> businessBefore b a"
proof -
  have ka: "snd (snd (pkey a)) = priority (service a)"
    and kb: "snd (snd (pkey b)) = priority (service b)"
    using pa pb by (simp_all add: pkey_def)
  have flag: "fst (pkey a) < fst (pkey b) \<longleftrightarrow>
      isPriorityService (service a) \<and> \<not> isPriorityService (service b)"
    "fst (pkey a) = fst (pkey b) \<longleftrightarrow>
      isPriorityService (service a) = isPriorityService (service b)"
    by (simp_all add: pkey_def)
  have tlt: "fst (snd (pkey a)) < fst (snd (pkey b)) \<longleftrightarrow>
      tier (service a) \<noteq> 0 \<and> (tier (service b) = 0 \<or> tier (service a) < tier (service b))"
    using ta tb by (auto simp: pkey_def)
  have teq: "fst (snd (pkey a)) = fst (snd (pkey b)) \<longleftrightarrow> tier (service a) = tier (service b)"
    using ta tb by (auto simp: pkey_def)
  from le have
    "(isPriorityService (service a) \<and> \<not> isPriorityService (service b)) \<or>
     isPriorityService (service a) = isPriorityService (service b) \<and>
       ((tier (service a) \<noteq> 0 \<and> (tier (service b) = 0 \<or> tier (service a) < tier (service b))) \<or>
        tier (service a) = tier (service b) \<and>
          (priority (service a) < priority (service b) \<or>
           priority (service a) = priority (service b) \<and> score b \<le> score a))"
    unfolding compareScored_le_iff flag tlt teq ka kb .
  then show ?thesis
    unfolding businessBefore_def Let_def by (elim disjE conjE) auto
qed


lemma find_Some_in_set: "find P xs = Some x \<Longrightarrow> x \<in> set xs"
  by (induction xs) (auto split: if_splits)

lemma semanticToScored_services:
  "x \<in> set (semanticToScored services rs) \<Longrightarrow> service x \<in> set services"
  by (induction rs) (auto split: option.splits dest: find_Some_in_set)

lemma scoreService_service: "service (scoreService q ws s) = s"
  by (simp add: scoreService_def Let_def)

lemma patternSearch_services: "service ` set (patternSearch services q) \<subseteq> set services"
  by (auto simp: patternSearch_def Let_def scoreService_service)

lemma semanticTry_services:
  "semanticTry e services q n = Inr r \<Longrightarrow> service ` set (snd r) \<subseteq> set services"
  by (auto simp: semanticTry_def split: sum.splits if_splits dest: semanticToScored_services)

lemma hybridSearch_services:
  "service ` set (snd (hybridSearch emb services q n)) \<subseteq> set services"
proof (cases "q = []")
  case True
  then show ?thesis by (simp add: hybridSearch_def)
next
  case False
  define afterSemantic where "afterSemantic =
               (case emb of
                  None \<Rightarrow> (''none'', [])
                | Some e \<Rightarrow>
                    (if isReady e then
                       (case semanticTry e services q n of
                          Inl semanticError \<Rightarrow> (''none'', [])
                        | Inr r \<Rightarrow> r)
                     else (''none'', [])))"
  have a: "service ` set (snd afterSemantic) \<subseteq> set services"
    unfolding afterSemantic_def using semanticTry_services
    by (auto split: option.splits sum.splits)
  have "hybridSearch emb services q n =
      (if length (snd afterSemantic) = 0
            then (''pattern'', patternSearch services (toLowerCase q))
            else afterSemantic)"
    using False by (simp add: hybridSearch_def afterSemantic_def Let_def)
  with a patternSearch_services show ?thesis by auto
qed

lemma withFallbackAll_services:
  "service ` set (snd found) \<subseteq> set services \<Longrightarrow>
   service ` set (snd (withFallbackAll services q found)) \<subseteq> set services"
  by (auto simp: withFallbackAll_def)

lemma filterByDomain_subset: "set (filterByDomain catalog d) \<subseteq> set catalog"
  by (auto simp: filterByDomain_def)

lemma set_sortBy: "set (sortBy cmp xs) = set xs"
  using mset_sortBy [of cmp xs] by (metis set_mset_mset)

lemma rankedServices_services:
  "service ` set (snd (rankedServices catalog emb args)) \<subseteq> set catalog"
proof -
  let ?services = "filterByDomain catalog (domainFilterOf args)"
  have "service ` set (snd (withFallbackAll ?services (queryOf args)
          (hybridSearch emb ?services (queryOf args) (limitOf args)))) \<subseteq> set ?services"
    by (rule withFallbackAll_services) (rule hybridSearch_services)
  then show ?thesis
    using filterByDomain_subset [of catalog "domainFilterOf args"]
    by (simp add: rankedServices_def Let_def set_sortBy)
qed

lemma set_slice0: "set (slice0 xs n) \<subseteq> set xs"
  by (auto simp: slice0_def dest: in_set_takeD)

lemma sorted_wrt_slice0: "sorted_wrt P xs \<Longrightarrow> sorted_wrt P (slice0 xs n)"
  by (simp add: slice0_def sorted_wrt_take)

lemma determineTier_le: "determineTier serviceId ttl config \<le> 3"
  by (simp add: determineTier_def Let_def)

lemma classifyWith_bounds:
  "tier (classifyWith configs serviceId ttl) \<le> 3 \<and> 0 < priority (classifyWith configs serviceId ttl)"
  by (induction configs)
     (simp_all add: Let_def determineTier_le PRIORITY_SERVICE_def TIER_1_def TIER_2_def TIER_3_def
        UNCLASSIFIED_def)

text \<open>Every entry of a discovered catalog is classified in that sense.\<close>

lemma discoverCatalog_classified:
  "s \<in> set (discoverCatalog v2Services) \<Longrightarrow> tier s \<le> 3 \<and> 0 < priority s"
  using classifyWith_bounds
  by (auto simp: discoverCatalog_def tagService_def classifyService_def Let_def)

text \<open>
  C1. Whatever stage produced the candidates (semantic, lexical or all services), the list
  that Stage 1 returns is sorted by the business-priority order, and the reranked list is a
  rearrangement of exactly those candidates. The catalog entries carry a classification
  (tier at most \<open>3\<close>, a positive priority score), as \<open>classifyService\<close> produces it.
\<close>

theorem limitedResults_business_sorted:
  assumes "\<forall>s\<in>set catalog. tier s \<le> 3 \<and> 0 < priority s"
  shows "sorted_wrt (\<lambda>a b. \<not> businessBefore b a) (limitedResults catalog emb args)
    \<and> mset (snd (rankedServices catalog emb args)) =
        mset (snd (withFallbackAll (filterByDomain catalog (domainFilterOf args)) (queryOf args)
          (hybridSearch emb (filterByDomain catalog (domainFilterOf args)) (queryOf args) (limitOf args))))"
proof -
  let ?ranked = "snd (rankedServices catalog emb args)"
  have sorted: "sorted_wrt (\<lambda>a b. compareScored a b \<le> 0) ?ranked"
    using sorted_sortBy [of compareScored] compareScored_total compareScored_trans
    by (simp add: rankedServices_def Let_def)
  have ok: "\<forall>x\<in>set ?ranked. tier (service x) \<le> 3 \<and> 0 < priority (service x)"
    using rankedServices_services [of catalog emb args] assms by blast
  have "sorted_wrt (\<lambda>a b. \<not> businessBefore b a) ?ranked"
    using sorted
  proof (rule sorted_wrt_mono_rel [rotated])
    fix a b
    assume "a \<in> set ?ranked" "b \<in> set ?ranked" "compareScored a b \<le> 0"
    then show "\<not> businessBefore b a"
      using ok compareScored_business by blast
  qed
  then have "sorted_wrt (\<lambda>a b. \<not> businessBefore b a) (limitedResults catalog emb args)"
    unfolding limitedResults_def by (rule sorted_wrt_slice0)
  moreover have "mset ?ranked =
        mset (snd (withFallbackAll (filterByDomain catalog (domainFilterOf args)) (queryOf args)
          (hybridSearch emb (filterByDomain catalog (domainFilterOf args)) (queryOf args) (limitOf args))))"
    by (simp add: rankedServices_def Let_def mset_sortBy)
  ultimately show ?thesis by simp
qed


theorem limitedResults_business_sorted_witness:
  "list_all (\<lambda>s. tier s \<le> 3 \<and> 0 < priority s) exampleCatalog
   \<and> sorted_wrt (\<lambda>a b. \<not> businessBefore b a)
        (limitedResults exampleCatalog None
           \<lparr>query = Some ''cash receipts'', domainArg = None, limit = Some 3\<rparr>)
   \<and> map (\<lambda>x. svcId (service x))
        (limitedResults exampleCatalog None
           \<lparr>query = Some ''cash receipts'', domainArg = None, limit = Some 3\<rparr>)
      = [''ZFAR_PAYMENT_POST_SRV_0001'', ''ZSD_BILLING_DOC_SRV'']"
proof -
  have h: "list_all (\<lambda>s. tier s \<le> 3 \<and> 0 < priority s) exampleCatalog"
    by code_simp
  then have h': "\<forall>s\<in>set exampleCatalog. tier s \<le> 3 \<and> 0 < priority s"
    by (simp add: list_all_iff)
  have v: "map (\<lambda>x. svcId (service x))
        (limitedResults exampleCatalog None
           \<lparr>query = Some ''cash receipts'', domainArg = None, limit = Some 3\<rparr>)
      = [''ZFAR_PAYMENT_POST_SRV_0001'', ''ZSD_BILLING_DOC_SRV'']"
    by code_simp
  show ?thesis
    using h v limitedResults_business_sorted [OF h', of None
        "\<lparr>query = Some ''cash receipts'', domainArg = None, limit = Some 3\<rparr>"]
    by simp
qed

section \<open>The semantic stage fails\<close>

lemma hybridSearch_semantic_error:
  assumes "isReady e" and "q \<noteq> []"
    and "searchServices e q (n * 2) 0.25 = Inl err"
  shows "hybridSearch (Some e) services q n = (''pattern'', patternSearch services (toLowerCase q))"
  using assms by (simp add: hybridSearch_def semanticTry_def)

lemma hybridSearch_no_embedding:
  "q \<noteq> [] \<Longrightarrow> hybridSearch None services q n = (''pattern'', patternSearch services (toLowerCase q))"
  by (simp add: hybridSearch_def)

lemma discover_cong:
  assumes "hybridSearch emb (filterByDomain catalog (domainFilterOf args)) (queryOf args) (limitOf args)
         = hybridSearch emb' (filterByDomain catalog (domainFilterOf args)) (queryOf args) (limitOf args)"
  shows "discoverServicesAndEntities catalog emb args
       = discoverServicesAndEntities catalog emb' args"
  using assms
  by (simp add: discoverServicesAndEntities_def limitedResults_def rankedServices_def Let_def)

lemma searchMethod_discover:
  "searchMethod (discoverServicesAndEntities catalog emb args) =
     fst (withFallbackAll (filterByDomain catalog (domainFilterOf args)) (queryOf args)
       (hybridSearch emb (filterByDomain catalog (domainFilterOf args)) (queryOf args) (limitOf args)))"
  by (simp add: discoverServicesAndEntities_def rankedServices_def Let_def)

text \<open>
  C3. When the embedding service throws during the semantic stage, the exception is caught:
  the search goes on with the lexical fallback over the domain-filtered candidates, the
  response is the one of a registry that has no embedding service at all, and its search
  method is \<open>pattern\<close>, or \<open>fallback\<close> when the lexical stage finds nothing.
\<close>

theorem semantic_error_falls_back_to_lexical:
  assumes ready: "isReady e"
    and q: "queryOf args \<noteq> []"
    and throws: "searchServices e (queryOf args) (limitOf args * 2) 0.25 = Inl err"
  shows "hybridSearch (Some e) (filterByDomain catalog (domainFilterOf args))
           (queryOf args) (limitOf args)
         = (''pattern'', patternSearch (filterByDomain catalog (domainFilterOf args))
                           (toLowerCase (queryOf args)))
     \<and> discoverServicesAndEntities catalog (Some e) args
         = discoverServicesAndEntities catalog None args
     \<and> searchMethod (discoverServicesAndEntities catalog (Some e) args)
         \<in> {''pattern'', ''fallback''}"
proof -
  let ?services = "filterByDomain catalog (domainFilterOf args)"
  have h: "hybridSearch (Some e) ?services (queryOf args) (limitOf args)
         = (''pattern'', patternSearch ?services (toLowerCase (queryOf args)))"
    using ready q throws by (rule hybridSearch_semantic_error)
  moreover have "discoverServicesAndEntities catalog (Some e) args
         = discoverServicesAndEntities catalog None args"
    by (rule discover_cong) (simp add: h hybridSearch_no_embedding q)
  moreover have "searchMethod (discoverServicesAndEntities catalog (Some e) args)
         \<in> {''pattern'', ''fallback''}"
    using q by (simp add: searchMethod_discover h withFallbackAll_def)
  ultimately show ?thesis by simp
qed


theorem semantic_error_falls_back_to_lexical_witness:
  "isReady failingEmbedding
   \<and> queryOf \<lparr>query = Some '' cash receipts '', domainArg = None, limit = Some 3\<rparr> \<noteq> []
   \<and> searchServices failingEmbedding
        (queryOf \<lparr>query = Some '' cash receipts '', domainArg = None, limit = Some 3\<rparr>)
        (limitOf \<lparr>query = Some '' cash receipts '', domainArg = None, limit = Some 3\<rparr> * 2) 0.25
       = Inl (Error ''Embedding model not initialized'')
   \<and> searchMethod (discoverServicesAndEntities exampleCatalog (Some failingEmbedding)
        \<lparr>query = Some '' cash receipts '', domainArg = None, limit = Some 3\<rparr>) = ''pattern''
   \<and> map r_serviceId (results (discoverServicesAndEntities exampleCatalog (Some failingEmbedding)
        \<lparr>query = Some '' cash receipts '', domainArg = None, limit = Some 3\<rparr>))
       = [''ZFAR_PAYMENT_POST_SRV_0001'', ''ZSD_BILLING_DOC_SRV'']"
proof -
  let ?args = "\<lparr>query = Some '' cash receipts '', domainArg = None, limit = Some 3\<rparr>"
  have ready: "isReady failingEmbedding"
    by (simp add: failingEmbedding_def)
  have q: "queryOf ?args \<noteq> []"
    by code_simp
  have throws: "searchServices failingEmbedding (queryOf ?args) (limitOf ?args * 2) 0.25
       = Inl (Error ''Embedding model not initialized'')"
    by (simp add: failingEmbedding_def)
  have m: "searchMethod (discoverServicesAndEntities exampleCatalog None ?args) = ''pattern''"
    by code_simp
  have r: "map r_serviceId (results (discoverServicesAndEntities exampleCatalog None ?args))
       = [''ZFAR_PAYMENT_POST_SRV_0001'', ''ZSD_BILLING_DOC_SRV'']"
    by code_simp
  have "discoverServicesAndEntities exampleCatalog (Some failingEmbedding) ?args
      = discoverServicesAndEntities exampleCatalog None ?args"
    using semantic_error_falls_back_to_lexical [OF ready q throws, of exampleCatalog] by blast
  with ready q throws m r show ?thesis by metis
qed

section \<open>Empty query and the fallback to all services\<close>

lemma length_sortBy: "length (sortBy cmp xs) = length xs"
  using mset_sortBy [of cmp xs] by (metis size_mset)

lemma distinct_map_sortBy: "distinct (map f (sortBy cmp xs)) = distinct (map f xs)"
proof -
  have "mset (map f (sortBy cmp xs)) = mset (map f xs)"
    by (simp add: mset_sortBy)
  then show ?thesis by (rule mset_eq_imp_distinct_iff)
qed

lemma withFallbackAll_nonempty:
  "services \<noteq> [] \<Longrightarrow> snd (withFallbackAll services q found) \<noteq> []"
  by (auto simp: withFallbackAll_def)

lemma slice0_take: "0 \<le> n \<Longrightarrow> slice0 xs n = take (nat n) xs"
  by (simp add: slice0_def)

lemma rankedServices_empty_query:
  "queryOf args = [] \<Longrightarrow>
   rankedServices catalog emb args =
     (''all'', sortBy compareScored
        (map (\<lambda>s. \<lparr>service = s, score = 0.5, matchReason = ''All services''\<rparr>)
           (filterByDomain catalog (domainFilterOf args))))"
  by (simp add: rankedServices_def hybridSearch_def withFallbackAll_def Let_def)

lemma distinct_filterByDomain:
  "distinct (map svcId catalog) \<Longrightarrow> distinct (map svcId (filterByDomain catalog d))"
  by (simp add: filterByDomain_def distinct_map_filter)

lemma results_discover:
  "results (discoverServicesAndEntities catalog emb args) =
     map toResult (limitedResults catalog emb args)"
  by (simp add: discoverServicesAndEntities_def Let_def)

lemma r_serviceId_toResult: "r_serviceId (toResult item) = svcId (service item)"
  by (simp add: toResult_def Let_def)

text \<open>
  C4. With a limit as the tool's input schema admits it (at least \<open>1\<close>; an absent limit
  reads as \<open>20\<close>): the search returns no empty list when the domain-filtered corpus is
  not empty; and for an empty query it returns exactly the minimum of the limit and the
  size of the filtered corpus, without a repeated service identifier when the catalog has
  none, every entry with the neutral score \<open>0.5\<close>.
\<close>

theorem empty_query_returns_min_and_never_empty:
  assumes lim: "1 \<le> limitOf args"
  shows "(filterByDomain catalog (domainFilterOf args) \<noteq> [] \<longrightarrow>
            results (discoverServicesAndEntities catalog emb args) \<noteq> [])
     \<and> (queryOf args = [] \<longrightarrow>
            length (results (discoverServicesAndEntities catalog emb args)) =
              min (nat (limitOf args)) (length (filterByDomain catalog (domainFilterOf args)))
          \<and> (distinct (map svcId catalog) \<longrightarrow>
               distinct (map r_serviceId
                 (results (discoverServicesAndEntities catalog emb args))))
          \<and> list_all (\<lambda>item. score item = 0.5) (limitedResults catalog emb args))"
proof -
  let ?services = "filterByDomain catalog (domainFilterOf args)"
  let ?ranked = "snd (rankedServices catalog emb args)"
  have n: "0 < nat (limitOf args)" using lim by simp
  have lr: "limitedResults catalog emb args = take (nat (limitOf args)) ?ranked"
    using lim by (simp add: limitedResults_def slice0_take)
  have nonempty: "results (discoverServicesAndEntities catalog emb args) \<noteq> []"
    if "?services \<noteq> []"
  proof -
    have "?ranked \<noteq> []"
      using withFallbackAll_nonempty [OF that] length_sortBy [of compareScored]
      by (metis (no_types, lifting) rankedServices_def length_0_conv snd_conv)
    with n show ?thesis
      by (simp add: results_discover lr)
  qed
  have empty: "length (results (discoverServicesAndEntities catalog emb args)) =
              min (nat (limitOf args)) (length ?services)
          \<and> (distinct (map svcId catalog) \<longrightarrow>
               distinct (map r_serviceId
                 (results (discoverServicesAndEntities catalog emb args))))
          \<and> list_all (\<lambda>item. score item = 0.5) (limitedResults catalog emb args)"
    if q: "queryOf args = []"
  proof -
    let ?all = "map (\<lambda>s. \<lparr>service = s, score = 0.5, matchReason = ''All services''\<rparr>) ?services"
    have r: "?ranked = sortBy compareScored ?all"
      using q by (simp add: rankedServices_empty_query)
    have len: "length (results (discoverServicesAndEntities catalog emb args)) =
              min (nat (limitOf args)) (length ?services)"
      by (simp add: results_discover lr r length_sortBy min.commute)
    have dist: "distinct (map r_serviceId
                 (results (discoverServicesAndEntities catalog emb args)))"
      if d: "distinct (map svcId catalog)"
    proof -
      have e: "map (\<lambda>item. svcId (service item)) ?all = map svcId ?services"
        by (simp add: comp_def)
      have "distinct (map (\<lambda>item. svcId (service item)) ?all)"
        unfolding e using d by (rule distinct_filterByDomain)
      then have "distinct (map (\<lambda>item. svcId (service item)) ?ranked)"
        unfolding r distinct_map_sortBy .
      then have "distinct (take (nat (limitOf args)) (map (\<lambda>item. svcId (service item)) ?ranked))"
        by (rule distinct_take)
      then show ?thesis
        by (simp add: results_discover lr comp_def r_serviceId_toResult take_map)
    qed
    have "\<forall>item\<in>set ?ranked. score item = 0.5"
      by (auto simp: r set_sortBy)
    then have "list_all (\<lambda>item. score item = 0.5) (limitedResults catalog emb args)"
      unfolding lr list_all_iff by (meson in_set_takeD)
    with len dist show ?thesis by simp
  qed
  from nonempty empty show ?thesis by blast
qed

theorem empty_query_returns_min_and_never_empty_witness:
  "1 \<le> limitOf \<lparr>query = Some ''  '', domainArg = Some ''ar'', limit = Some 2\<rparr>
   \<and> queryOf \<lparr>query = Some ''  '', domainArg = Some ''ar'', limit = Some 2\<rparr> = []
   \<and> length (filterByDomain exampleCatalog
        (domainFilterOf \<lparr>query = Some ''  '', domainArg = Some ''ar'', limit = Some 2\<rparr>)) = 3
   \<and> distinct (map svcId exampleCatalog)
   \<and> length (results (discoverServicesAndEntities exampleCatalog (Some failingEmbedding)
        \<lparr>query = Some ''  '', domainArg = Some ''ar'', limit = Some 2\<rparr>)) = 2
   \<and> distinct (map r_serviceId (results (discoverServicesAndEntities exampleCatalog
        (Some failingEmbedding) \<lparr>query = Some ''  '', domainArg = Some ''ar'', limit = Some 2\<rparr>)))
   \<and> list_all (\<lambda>item. score item = 0.5) (limitedResults exampleCatalog (Some failingEmbedding)
        \<lparr>query = Some ''  '', domainArg = Some ''ar'', limit = Some 2\<rparr>)"
proof -
  let ?args = "\<lparr>query = Some ''  '', domainArg = Some ''ar'', limit = Some 2\<rparr>"
  have lim: "1 \<le> limitOf ?args"
    by (simp add: limitOf_def)
  have l2: "nat (limitOf ?args) = 2"
    by (simp add: limitOf_def)
  have q: "queryOf ?args = []"
    by code_simp
  have len: "length (filterByDomain exampleCatalog (domainFilterOf ?args)) = 3"
    by code_simp
  have d: "distinct (map svcId exampleCatalog)"
    by code_simp
  show ?thesis
    using empty_query_returns_min_and_never_empty [OF lim, of exampleCatalog "Some failingEmbedding"]
      lim q len d l2
    by simp
qed

section \<open>Scores of the lexical fallback\<close>

lemma targetStep_max:
  assumes "0 \<le> fst best" and "0 \<le> weight t"
  shows "fst (targetStep q (queryWordsOf q) best t) = max (fst best) (fieldScore q t)"
  using assms by (auto simp: targetStep_def fieldScore_def Let_def max_def)

lemma targetStep_nonneg:
  assumes "0 \<le> fst best" and "0 \<le> weight t"
  shows "0 \<le> fst (targetStep q ws best t)"
  using assms by (auto simp: targetStep_def)

lemma foldl_targetStep_max:
  assumes "0 \<le> fst best" and "\<forall>t\<in>set ts. 0 \<le> weight t"
  shows "fst (foldl (targetStep q (queryWordsOf q)) best ts) =
         fold max (map (fieldScore q) ts) (fst best)"
  using assms
proof (induction ts arbitrary: best)
  case Nil
  then show ?case by simp
next
  case (Cons t ts)
  have "0 \<le> fst (targetStep q (queryWordsOf q) best t)"
    using Cons.prems by (simp add: targetStep_nonneg)
  then show ?case
    using Cons by (simp add: targetStep_max max.commute)
qed

lemma searchTargets_weights:
  "map (\<lambda>t. (tname t, weight t)) (searchTargets s h) =
     [(''ID'', 0.9), (''Title'', 0.85), (''Description'', 0.6), (''Label'', 0.95),
      (''UseFor'', 0.9), (''TCode'', 0.85), (''Entities'', 0.8)]"
  by (simp add: searchTargets_def)

lemma searchTargets_nonneg: "\<forall>t\<in>set (searchTargets s h). 0 \<le> weight t"
  by (simp add: searchTargets_def)

lemma scoreService_score:
  "score (scoreService q (queryWordsOf q) s) =
     Max (set (0 # map (fieldScore q) (searchTargets s (getServiceHint (svcId s)))))"
proof -
  have "score (scoreService q (queryWordsOf q) s) =
      fold max (map (fieldScore q) (searchTargets s (getServiceHint (svcId s)))) 0"
    using foldl_targetStep_max [of "(0, [])", OF _ searchTargets_nonneg]
    by (simp add: scoreService_def Let_def)
  then show ?thesis
    by (simp only: Max.set_eq_fold)
qed


lemma fieldScore_nonneg: "0 \<le> weight t \<Longrightarrow> 0 \<le> fieldScore q t"
  by (simp add: fieldScore_def Let_def)

lemma fieldScore_short_words:
  assumes "list_all (\<lambda>w. length w \<le> 2) (split_whitespace q)"
  shows "fieldScore q t = (if ttext t \<noteq> [] \<and> str_includes (ttext t) q then weight t else 0)"
proof -
  have "queryWordsOf q = []"
    using assms by (auto simp: queryWordsOf_def list_all_iff filter_empty_conv)
  then show ?thesis by (simp add: fieldScore_def)
qed

lemma patternSearch_member:
  "item \<in> set (patternSearch services q) \<longleftrightarrow>
     (\<exists>s\<in>set services. item = scoreService q (queryWordsOf q) s \<and> 0 < score item)"
  by (auto simp: patternSearch_def Let_def)

lemma Max_pos_ex:
  fixes xs :: "real list"
  shows "0 < Max (set (0 # xs)) \<longleftrightarrow> (\<exists>x\<in>set xs. 0 < x)"
  by (subst Max_gr_iff) auto


text \<open>
  C5, as the code has it. In the lexical fallback the score of a candidate is the maximum
  of the per-field scores, and candidates that score \<open>0\<close> are dropped. The weights are
  fixed: label \<open>0.95\<close>, identifier and use-for text \<open>0.9\<close>, title and
  transaction code \<open>0.85\<close>, entity names \<open>0.8\<close>, description \<open>0.6\<close>.
\<close>

theorem lexical_score_is_field_maximum:
  "score (scoreService q (queryWordsOf q) s) =
     Max (set (0 # map (fieldScore q) (searchTargets s (getServiceHint (svcId s)))))
   \<and> patternSearch services q =
       filter (\<lambda>item. 0 < score item) (map (scoreService q (queryWordsOf q)) services)
   \<and> map (\<lambda>t. (tname t, weight t)) (searchTargets s h) =
       [(''ID'', 0.9), (''Title'', 0.85), (''Description'', 0.6), (''Label'', 0.95),
        (''UseFor'', 0.9), (''TCode'', 0.85), (''Entities'', 0.8)]"
  using scoreService_score [of q s] searchTargets_weights [of s h]
  by (simp add: patternSearch_def Let_def)

theorem lexical_score_is_field_maximum_witness:
  "score (scoreService ''cash receipts'' (queryWordsOf ''cash receipts'') (exampleCatalog ! 3)) = 0.85
   \<and> Max (set (0 # map (fieldScore ''cash receipts'')
         (searchTargets (exampleCatalog ! 3) (getServiceHint (svcId (exampleCatalog ! 3)))))) = 0.85
   \<and> map (\<lambda>x. svcId (service x)) (patternSearch exampleCatalog ''cash receipts'')
       = [''ZFAR_PAYMENT_POST_SRV_0001'', ''ZSD_BILLING_DOC_SRV'']"
proof -
  have v: "score (scoreService ''cash receipts'' (queryWordsOf ''cash receipts'')
             (exampleCatalog ! 3)) = 0.85"
    by code_simp
  have p: "map (\<lambda>x. svcId (service x)) (patternSearch exampleCatalog ''cash receipts'')
       = [''ZFAR_PAYMENT_POST_SRV_0001'', ''ZSD_BILLING_DOC_SRV'']"
    by code_simp
  from lexical_score_is_field_maximum [of "''cash receipts''" "exampleCatalog ! 3"]
  have "score (scoreService ''cash receipts'' (queryWordsOf ''cash receipts'') (exampleCatalog ! 3))
      = Max (set (0 # map (fieldScore ''cash receipts'')
         (searchTargets (exampleCatalog ! 3) (getServiceHint (svcId (exampleCatalog ! 3))))))"
    by blast
  with v p show ?thesis by simp
qed

text \<open>
  The weights are not ordered as the specification lists them: a match in the use-for text
  (\<open>0.9\<close>) outranks a match in the title (\<open>0.85\<close>).
\<close>

theorem field_weights_order_counterexample:
  "map (\<lambda>x. (svcId (service x), matchReason x)) (patternSearch exampleCatalog ''cash receipts'')
     = [(''ZFAR_PAYMENT_POST_SRV_0001'', ''UseFor match''), (''ZSD_BILLING_DOC_SRV'', ''Title match'')]
   \<and> score (patternSearch exampleCatalog ''cash receipts'' ! 1)
       < score (patternSearch exampleCatalog ''cash receipts'' ! 0)"
  by code_simp

text \<open>
  C10. The words of a query that take part in word matching are its whitespace-separated
  pieces of more than two characters, in their order; the shorter ones are discarded. A
  query made of short words only scores a service through a field that contains the whole
  query. For a field that does not contain the whole query: with several longer words it
  counts (factor \<open>0.9\<close>) exactly when it contains every one of them; with exactly one
  longer word it counts (factor \<open>0.85\<close>) exactly when it contains that word; with none it
  does not count.
\<close>

theorem short_query_words_discarded:
  "queryWordsOf q = filter (\<lambda>w. 2 < length w) (split_whitespace q)
   \<and> (list_all (\<lambda>w. length w \<le> 2) (split_whitespace q) \<longrightarrow>
      score (scoreService q (queryWordsOf q) s) =
        Max (set (0 # map (\<lambda>t. if ttext t \<noteq> [] \<and> str_includes (ttext t) q then weight t else 0)
                        (searchTargets s (getServiceHint (svcId s)))))
      \<and> (item \<in> set (patternSearch services q) \<longrightarrow>
           list_ex (\<lambda>t. ttext t \<noteq> [] \<and> str_includes (ttext t) q)
             (searchTargets (service item) (getServiceHint (svcId (service item))))))
   \<and> (ttext t \<noteq> [] \<and> \<not> str_includes (ttext t) q \<longrightarrow>
        targetStep q (queryWordsOf q) best t =
          (if 1 < length (filter (\<lambda>w. 2 < length w) (split_whitespace q)) then
             (if (\<forall>w\<in>set (split_whitespace q). 2 < length w \<longrightarrow> str_includes (ttext t) w)
                 \<and> fst best < weight t * 0.9
              then (weight t * 0.9, tname t @ '' (all words)'') else best)
           else if length (filter (\<lambda>w. 2 < length w) (split_whitespace q)) = 1 then
             (if (\<forall>w\<in>set (split_whitespace q). 2 < length w \<longrightarrow> str_includes (ttext t) w)
                 \<and> fst best < weight t * 0.85
              then (weight t * 0.85, tname t @ '' (partial)'') else best)
           else best))"
proof -
  have words: "queryWordsOf q = filter (\<lambda>w. 2 < length w) (split_whitespace q)"
    by (simp add: queryWordsOf_def)
  have short: "score (scoreService q (queryWordsOf q) s) =
        Max (set (0 # map (\<lambda>t. if ttext t \<noteq> [] \<and> str_includes (ttext t) q then weight t else 0)
                        (searchTargets s (getServiceHint (svcId s)))))
      \<and> (item \<in> set (patternSearch services q) \<longrightarrow>
           list_ex (\<lambda>t. ttext t \<noteq> [] \<and> str_includes (ttext t) q)
             (searchTargets (service item) (getServiceHint (svcId (service item)))))"
    if sw: "list_all (\<lambda>w. length w \<le> 2) (split_whitespace q)"
  proof -
    have fs: "fieldScore q = (\<lambda>t. if ttext t \<noteq> [] \<and> str_includes (ttext t) q then weight t else 0)"
      using fieldScore_short_words [OF sw] by (rule ext)
    have one: "score (scoreService q (queryWordsOf q) s) =
        Max (set (0 # map (\<lambda>t. if ttext t \<noteq> [] \<and> str_includes (ttext t) q then weight t else 0)
                        (searchTargets s (getServiceHint (svcId s)))))"
      using scoreService_score [of q s] by (simp only: fs)
    have two: "list_ex (\<lambda>t. ttext t \<noteq> [] \<and> str_includes (ttext t) q)
             (searchTargets (service item) (getServiceHint (svcId (service item))))"
      if mem: "item \<in> set (patternSearch services q)"
    proof -
      from mem obtain s' where s': "item = scoreService q (queryWordsOf q) s'" and pos: "0 < score item"
        by (auto simp: patternSearch_member)
      have sv: "service item = s'"
        by (simp add: s' scoreService_service)
      have "0 < Max (set (0 # map (fieldScore q) (searchTargets s' (getServiceHint (svcId s')))))"
        using pos scoreService_score [of q s'] by (simp only: s')
      then obtain t' where "t' \<in> set (searchTargets s' (getServiceHint (svcId s')))"
        and "0 < fieldScore q t'"
        unfolding Max_pos_ex by auto
      then show ?thesis
        unfolding sv list_ex_iff fs by (auto split: if_splits)
    qed
    from one two show ?thesis by blast
  qed
  have step: "targetStep q (queryWordsOf q) best t =
          (if 1 < length (filter (\<lambda>w. 2 < length w) (split_whitespace q)) then
             (if (\<forall>w\<in>set (split_whitespace q). 2 < length w \<longrightarrow> str_includes (ttext t) w)
                 \<and> fst best < weight t * 0.9
              then (weight t * 0.9, tname t @ '' (all words)'') else best)
           else if length (filter (\<lambda>w. 2 < length w) (split_whitespace q)) = 1 then
             (if (\<forall>w\<in>set (split_whitespace q). 2 < length w \<longrightarrow> str_includes (ttext t) w)
                 \<and> fst best < weight t * 0.85
              then (weight t * 0.85, tname t @ '' (partial)'') else best)
           else best)"
    if nz: "ttext t \<noteq> []" and nf: "\<not> str_includes (ttext t) q"
  proof -
    let ?long = "filter (\<lambda>w. 2 < length w) (split_whitespace q)"
    have allw: "(\<forall>w\<in>set (split_whitespace q). 2 < length w \<longrightarrow> str_includes (ttext t) w)
        = list_all (\<lambda>w. str_includes (ttext t) w) ?long"
      by (auto simp: list_all_iff)
    consider "1 < length ?long" | "length ?long = 1" | "?long = []"
      by (cases ?long) (auto simp: Suc_lessI)
    then show ?thesis
    proof cases
      case 1
      then show ?thesis
        unfolding allw words using nz nf by (simp add: targetStep_def)
    next
      case 2
      then obtain w where w: "?long = [w]"
        by (cases ?long) auto
      show ?thesis
        unfolding allw words w using nz nf by (simp add: targetStep_def)
    next
      case 3
      show ?thesis
        unfolding allw words 3 using nz nf by (simp add: targetStep_def)
    qed
  qed
  from words short step show ?thesis by blast
qed

theorem short_query_words_discarded_witness:
  "list_all (\<lambda>w. length w \<le> 2) (split_whitespace ''on ac'')
   \<and> map (\<lambda>x. (svcId (service x), matchReason x)) (patternSearch exampleCatalog ''on ac'')
       = [(''ZFAR_PAYMENT_POST_SRV_0001'', ''UseFor match'')]
   \<and> list_ex (\<lambda>t. ttext t \<noteq> [] \<and> str_includes (ttext t) ''on ac'')
        (searchTargets (service (hd (patternSearch exampleCatalog ''on ac'')))
           (getServiceHint (svcId (service (hd (patternSearch exampleCatalog ''on ac''))))))
   \<and> split_whitespace ''cash of receipts'' = [''cash'', ''of'', ''receipts'']
   \<and> queryWordsOf ''cash of receipts'' = [''cash'', ''receipts'']
   \<and> targetStep ''cash of receipts'' (queryWordsOf ''cash of receipts'') (0, [])
        \<lparr>ttext = ''receipts in cash'', weight = 0.85, tname = ''Title''\<rparr>
       = (0.765, ''Title (all words)'')
   \<and> split_whitespace ''of receipts'' = [''of'', ''receipts'']
   \<and> queryWordsOf ''of receipts'' = [''receipts'']
   \<and> targetStep ''of receipts'' (queryWordsOf ''of receipts'') (0, [])
        \<lparr>ttext = ''receipts in cash'', weight = 0.85, tname = ''Title''\<rparr>
       = (0.7225, ''Title (partial)'')"
proof -
  let ?t = "\<lparr>ttext = ''receipts in cash'', weight = 0.85, tname = ''Title''\<rparr>"
  have sw: "list_all (\<lambda>w. length w \<le> 2) (split_whitespace ''on ac'')"
    by code_simp
  have p: "map (\<lambda>x. (svcId (service x), matchReason x)) (patternSearch exampleCatalog ''on ac'')
       = [(''ZFAR_PAYMENT_POST_SRV_0001'', ''UseFor match'')]"
    by code_simp
  then have mem: "hd (patternSearch exampleCatalog ''on ac'') \<in> set (patternSearch exampleCatalog ''on ac'')"
    by (cases "patternSearch exampleCatalog ''on ac''") auto
  have one: "list_ex (\<lambda>t. ttext t \<noteq> [] \<and> str_includes (ttext t) ''on ac'')
        (searchTargets (service (hd (patternSearch exampleCatalog ''on ac'')))
           (getServiceHint (svcId (service (hd (patternSearch exampleCatalog ''on ac''))))))"
    using short_query_words_discarded
      [where q = "''on ac''" and item = "hd (patternSearch exampleCatalog ''on ac'')"
         and services = exampleCatalog] sw mem
    by blast
  have sp: "split_whitespace ''cash of receipts'' = [''cash'', ''of'', ''receipts'']"
    by code_simp
  have qw: "queryWordsOf ''cash of receipts'' = [''cash'', ''receipts'']"
    using short_query_words_discarded [where q = "''cash of receipts''"] unfolding sp by simp
  have pre: "ttext ?t \<noteq> [] \<and> \<not> str_includes (ttext ?t) ''cash of receipts''"
    by code_simp
  have "targetStep ''cash of receipts'' (queryWordsOf ''cash of receipts'') (0, []) ?t
      = (if 1 < length (filter (\<lambda>w. 2 < length w) (split_whitespace ''cash of receipts'')) then
             (if (\<forall>w\<in>set (split_whitespace ''cash of receipts''). 2 < length w \<longrightarrow> str_includes (ttext ?t) w)
                 \<and> fst (0::real, []::string) < weight ?t * 0.9
              then (weight ?t * 0.9, tname ?t @ '' (all words)'') else (0, []))
           else if length (filter (\<lambda>w. 2 < length w) (split_whitespace ''cash of receipts'')) = 1 then
             (if (\<forall>w\<in>set (split_whitespace ''cash of receipts''). 2 < length w \<longrightarrow> str_includes (ttext ?t) w)
                 \<and> fst (0::real, []::string) < weight ?t * 0.85
              then (weight ?t * 0.85, tname ?t @ '' (partial)'') else (0, []))
           else (0, []))"
    using short_query_words_discarded
      [where q = "''cash of receipts''" and t = ?t and best = "(0, [])"] pre
    by blast
  then have two: "targetStep ''cash of receipts'' (queryWordsOf ''cash of receipts'') (0, []) ?t
      = (0.765, ''Title (all words)'')"
    unfolding sp by simp
  have sp1: "split_whitespace ''of receipts'' = [''of'', ''receipts'']"
    by code_simp
  have qw1: "queryWordsOf ''of receipts'' = [''receipts'']"
    using short_query_words_discarded [where q = "''of receipts''"] unfolding sp1 by simp
  have pre1: "ttext ?t \<noteq> [] \<and> \<not> str_includes (ttext ?t) ''of receipts''"
    by code_simp
  have "targetStep ''of receipts'' (queryWordsOf ''of receipts'') (0, []) ?t
      = (if 1 < length (filter (\<lambda>w. 2 < length w) (split_whitespace ''of receipts'')) then
             (if (\<forall>w\<in>set (split_whitespace ''of receipts''). 2 < length w \<longrightarrow> str_includes (ttext ?t) w)
                 \<and> fst (0::real, []::string) < weight ?t * 0.9
              then (weight ?t * 0.9, tname ?t @ '' (all words)'') else (0, []))
           else if length (filter (\<lambda>w. 2 < length w) (split_whitespace ''of receipts'')) = 1 then
             (if (\<forall>w\<in>set (split_whitespace ''of receipts''). 2 < length w \<longrightarrow> str_includes (ttext ?t) w)
                 \<and> fst (0::real, []::string) < weight ?t * 0.85
              then (weight ?t * 0.85, tname ?t @ '' (partial)'') else (0, []))
           else (0, []))"
    using short_query_words_discarded
      [where q = "''of receipts''" and t = ?t and best = "(0, [])"] pre1
    by blast
  then have three: "targetStep ''of receipts'' (queryWordsOf ''of receipts'') (0, []) ?t
      = (0.7225, ''Title (partial)'')"
    unfolding sp1 by simp
  from sw p one sp qw two sp1 qw1 three show ?thesis by blast
qed

section \<open>Capability guard of Stage 3\<close>

lemma ensureMetadata_sapCalls: "sapCalls (snd (ensureMetadata up st i)) = sapCalls st"
  by (simp add: ensureMetadata_def Let_def split: option.splits sum.splits)

lemma ensureMetadata_userToken: "userToken (snd (ensureMetadata up st i)) = userToken st"
  by (simp add: ensureMetadata_def Let_def split: option.splits sum.splits)

lemma ensureMetadata_loaded:
  "metadata (catalogServices st ! i) = Some m \<Longrightarrow> ensureMetadata up st i = (Inr m, st)"
  by (simp add: ensureMetadata_def Let_def)

lemma runOperation_blocked:
  assumes "operation \<in> {''create'', ''update'', ''delete''}"
    and "\<not> permits operation entityType"
  shows "runOperation up st s entityType args operation =
     (Inl (Error (''Entity '' @ [CHR 0x27] @ a_entityName args @ [CHR 0x27] @ '' is not ''
                  @ capabilityWord operation)), st)"
proof -
  consider "operation = ''create''" | "operation = ''update''" | "operation = ''delete''"
    using assms(1) by blast
  then show ?thesis
  proof cases
    case 1
    with assms(2) have "\<not> creatable entityType" by (simp add: permits_def)
    with 1 show ?thesis by (simp add: runOperation_def capabilityWord_def Let_def)
  next
    case 2
    with assms(2) have "\<not> updatable entityType" by (simp add: permits_def)
    with 2 show ?thesis by (simp add: runOperation_def capabilityWord_def Let_def)
  next
    case 3
    with assms(2) have "\<not> deletable entityType" by (simp add: permits_def)
    with 3 show ?thesis by (simp add: runOperation_def capabilityWord_def Let_def)
  qed
qed

lemma validOps_mutations: "{''create'', ''update'', ''delete''} \<subseteq> set validOps"
  by (simp add: validOps_def)



lemma executeOperation_found:
  assumes valid: "toLowerCase (a_operation args) \<in> set validOps"
    and svc: "findIndex (\<lambda>s. svcId s = a_serviceId args) (catalogServices st) = Some i"
    and meta: "ensureMetadata up st i = (Inr m, st1)"
    and ent: "find (\<lambda>e. ename e = a_entityName args) (entityTypes m) = Some entityType"
  shows "executeOperation up st args =
     (case runOperation up (handToken st1) (catalogServices (handToken st1) ! i) entityType args
             (toLowerCase (a_operation args)) of
        (Inl e, st3) \<Rightarrow> (Inl (errorMessage e), st3)
      | (Inr r, st3) \<Rightarrow> (Inr r, st3))"
  unfolding executeOperation_def Let_def
  by (simp only: valid svc meta ent not_True_eq_False if_False option.case prod.case sum.case)


text \<open>
  C6, as the code has it. A create, update or delete on an entity whose flag forbids it
  ends in the exception that names the missing capability, and no request goes through
  the SAP client, read or write: the flag is tested before the key is built and before the
  request. What precedes the test is the lazy load of the schema that holds the flags. So
  the state after the call is the state after that load, with the user token handed to the
  client; when the schema was on the service already, it is the state before the call.
\<close>

theorem capability_guard_blocks_data_request:
  assumes svc: "findIndex (\<lambda>s. svcId s = a_serviceId args) (catalogServices st) = Some i"
    and meta: "ensureMetadata up st i = (Inr m, st1)"
    and ent: "find (\<lambda>e. ename e = a_entityName args) (entityTypes m) = Some entityType"
    and op: "toLowerCase (a_operation args) \<in> {''create'', ''update'', ''delete''}"
    and blocked: "\<not> permits (toLowerCase (a_operation args)) entityType"
  shows "fst (executeOperation up st args) =
           Inl (''Entity '' @ [CHR 0x27] @ a_entityName args @ [CHR 0x27] @ '' is not ''
                @ capabilityWord (toLowerCase (a_operation args)))
     \<and> sapCalls (snd (executeOperation up st args)) = sapCalls st
     \<and> snd (executeOperation up st args) = handToken st1
     \<and> (metadata (catalogServices st ! i) \<noteq> None \<longrightarrow>
           snd (executeOperation up st args) = handToken st)"
proof -
  have valid: "toLowerCase (a_operation args) \<in> set validOps"
    using op validOps_mutations by blast
  have run: "runOperation up (handToken st1) (catalogServices (handToken st1) ! i) entityType args
               (toLowerCase (a_operation args))
      = (Inl (Error (''Entity '' @ [CHR 0x27] @ a_entityName args @ [CHR 0x27] @ '' is not ''
                  @ capabilityWord (toLowerCase (a_operation args)))), handToken st1)"
    using op blocked by (rule runOperation_blocked)
  have ex: "executeOperation up st args =
      (Inl (''Entity '' @ [CHR 0x27] @ a_entityName args @ [CHR 0x27] @ '' is not ''
                @ capabilityWord (toLowerCase (a_operation args))), handToken st1)"
    unfolding executeOperation_found [OF valid svc meta ent] run
    by (simp add: errorMessage_def)
  have "sapCalls st1 = sapCalls st"
    using ensureMetadata_sapCalls [of up st i] meta by simp
  then have calls: "sapCalls (handToken st1) = sapCalls st"
    by (simp add: handToken_def split: option.splits)
  have warm: "handToken st1 = handToken st" if "metadata (catalogServices st ! i) \<noteq> None"
  proof -
    from that obtain m' where "metadata (catalogServices st ! i) = Some m'" by auto
    then have "ensureMetadata up st i = (Inr m', st)" by (rule ensureMetadata_loaded)
    with meta show ?thesis by simp
  qed
  show ?thesis
    unfolding ex using calls warm by simp
qed

theorem capability_guard_blocks_data_request_witness:
  "findIndex (\<lambda>s. svcId s = a_serviceId (actArgs ''Item'' ''DELETE'' [(''Line'', JNumber ''1'')]))
      (catalogServices warmRegistry) = Some 4
   \<and> ensureMetadata exampleUpstream warmRegistry 4 = (Inr exampleMetadata, warmRegistry)
   \<and> find (\<lambda>e. ename e = a_entityName (actArgs ''Item'' ''DELETE'' [(''Line'', JNumber ''1'')]))
        (entityTypes exampleMetadata) = Some itemEntity
   \<and> toLowerCase (a_operation (actArgs ''Item'' ''DELETE'' [(''Line'', JNumber ''1'')])) = ''delete''
   \<and> \<not> permits ''delete'' itemEntity
   \<and> fst (executeOperation exampleUpstream warmRegistry (actArgs ''Item'' ''DELETE'' [(''Line'', JNumber ''1'')]))
       = Inl (''Entity '' @ [CHR 0x27] @ ''Item'' @ [CHR 0x27] @ '' is not deletable'')
   \<and> sapCalls (snd (executeOperation exampleUpstream warmRegistry
        (actArgs ''Item'' ''DELETE'' [(''Line'', JNumber ''1'')]))) = []
   \<and> snd (executeOperation exampleUpstream warmRegistry (actArgs ''Item'' ''DELETE'' [(''Line'', JNumber ''1'')]))
       = warmRegistry"
proof -
  let ?A = "actArgs ''Item'' ''DELETE'' [(''Line'', JNumber ''1'')]"
  have svc: "findIndex (\<lambda>s. svcId s = a_serviceId ?A) (catalogServices warmRegistry) = Some 4"
    by code_simp
  have meta: "ensureMetadata exampleUpstream warmRegistry 4 = (Inr exampleMetadata, warmRegistry)"
    by code_simp
  have ent: "find (\<lambda>e. ename e = a_entityName ?A) (entityTypes exampleMetadata) = Some itemEntity"
    by code_simp
  have low: "toLowerCase (a_operation ?A) = ''delete''"
    by code_simp
  have op: "toLowerCase (a_operation ?A) \<in> {''create'', ''update'', ''delete''}"
    unfolding low by simp
  have np: "\<not> permits ''delete'' itemEntity"
    by code_simp
  have blocked: "\<not> permits (toLowerCase (a_operation ?A)) itemEntity"
    unfolding low by (rule np)
  have tok: "handToken warmRegistry = warmRegistry"
    by code_simp
  have calls: "sapCalls warmRegistry = []"
    by code_simp
  have word: "capabilityWord ''delete'' = ''deletable''"
    by code_simp
  have name: "a_entityName ?A = ''Item''"
    by (simp add: actArgs_def)
  from capability_guard_blocks_data_request [OF svc meta ent op blocked]
  have "fst (executeOperation exampleUpstream warmRegistry ?A)
       = Inl (''Entity '' @ [CHR 0x27] @ ''Item'' @ [CHR 0x27] @ '' is not deletable'')
     \<and> sapCalls (snd (executeOperation exampleUpstream warmRegistry ?A)) = []
     \<and> snd (executeOperation exampleUpstream warmRegistry ?A) = warmRegistry"
    unfolding low word name tok by (simp add: calls)
  with svc meta ent low np show ?thesis by blast
qed

text \<open>
  On a registry that has not loaded the schema yet, the same call fetches it before the
  flag can be tested: an upstream call is issued, and the cache has a new entry.
\<close>

theorem capability_check_follows_schema_fetch_counterexample:
  "fst (executeOperation exampleUpstream (initialRegistry exampleCatalog) (actArgs ''Item'' ''create'' []))
     = Inl (''Entity '' @ [CHR 0x27] @ ''Item'' @ [CHR 0x27] @ '' is not creatable'')
   \<and> fetches (initialRegistry exampleCatalog) = []
   \<and> fetches (snd (executeOperation exampleUpstream (initialRegistry exampleCatalog)
         (actArgs ''Item'' ''create'' []))) = [(lineItems, True)]
   \<and> map fst (metadataCache (initialRegistry exampleCatalog)) = []
   \<and> map fst (metadataCache (snd (executeOperation exampleUpstream (initialRegistry exampleCatalog)
         (actArgs ''Item'' ''create'' [])))) = [lineItems]"
  by code_simp

section \<open>Lazy loading of the schema\<close>

lemma map_of_cacheSet: "map_of (cacheSet k v cache) k' = (if k' = k then Some v else map_of cache k')"
  by (induction cache) (auto simp: cacheSet_def)

lemma fetchedOnce_ensureMetadata:
  assumes "fetchedOnce st"
  shows "fetchedOnce (snd (ensureMetadata up st i))"
proof -
  let ?s = "catalogServices st ! i"
  show ?thesis
  proof (cases "metadata ?s")
    case (Some m)
    with assms show ?thesis by (simp add: ensureMetadata_def Let_def)
  next
    case None
    show ?thesis
    proof (cases "map_of (metadataCache st) (svcId ?s)")
      case (Some m)
      with None assms show ?thesis
        by (simp add: ensureMetadata_def Let_def fetchedOnce_def)
    next
      case noCache: None
      show ?thesis
      proof (cases "fetchServiceMetadata up (length (fetches st)) ?s")
        case (Inl e)
        with None noCache assms show ?thesis
          by (simp add: ensureMetadata_def Let_def fetchedOnce_def)
      next
        case (Inr m)
        have fresh: "(svcId ?s, True) \<notin> set (filter snd (fetches st))"
          using assms noCache by (auto simp: fetchedOnce_def list_all_iff)
        have st': "snd (ensureMetadata up st i) =
            st\<lparr>catalogServices := (catalogServices st)[i := ?s\<lparr>metadata := Some m\<rparr>],
               metadataCache := cacheSet (svcId ?s) m (metadataCache st),
               fetches := fetches st @ [(svcId ?s, True)]\<rparr>"
          using None noCache Inr by (simp add: ensureMetadata_def Let_def)
        show ?thesis
          unfolding st' using assms fresh
          by (auto simp: fetchedOnce_def list_all_iff map_of_cacheSet)
      qed
    qed
  qed
qed

lemma sapCall_fetches:
  "fetches (snd (sapCall up st c)) = fetches st \<and> metadataCache (snd (sapCall up st c)) = metadataCache st"
  by (simp add: sapCall_def)

lemma runOperation_fetches:
  "fetches (snd (runOperation up st s e args operation)) = fetches st
   \<and> metadataCache (snd (runOperation up st s e args operation)) = metadataCache st"
  by (simp add: runOperation_def sapCall_def Let_def split: sum.splits)


lemma findIndex_Some: "findIndex P xs = Some i \<Longrightarrow> i < length xs \<and> P (xs ! i)"
  by (induction xs arbitrary: i) (auto split: if_splits option.splits)

lemma ensureMetadata_known:
  assumes "metadata (catalogServices st ! i) \<noteq> None
           \<or> map_of (metadataCache st) (svcId (catalogServices st ! i)) \<noteq> None"
  shows "fetches (snd (ensureMetadata up st i)) = fetches st"
  using assms by (auto simp: ensureMetadata_def Let_def split: option.splits)

lemma getEntityMetadata_state:
  "snd (getEntityMetadata up st serviceId entityName) = st
   \<or> (\<exists>i. findIndex (\<lambda>s. svcId s = serviceId) (catalogServices st) = Some i
          \<and> snd (getEntityMetadata up st serviceId entityName) = snd (ensureMetadata up st i))"
  by (auto simp: getEntityMetadata_def split: option.splits sum.splits prod.splits)

lemma executeOperation_state:
  "snd (executeOperation up st args) = st
   \<or> (\<exists>i. findIndex (\<lambda>s. svcId s = a_serviceId args) (catalogServices st) = Some i
          \<and> fetches (snd (executeOperation up st args)) = fetches (snd (ensureMetadata up st i))
          \<and> metadataCache (snd (executeOperation up st args))
              = metadataCache (snd (ensureMetadata up st i)))"
proof (cases "toLowerCase (a_operation args) \<in> set validOps")
  case False
  then show ?thesis by (simp add: executeOperation_def Let_def)
next
  case valid: True
  show ?thesis
  proof (cases "findIndex (\<lambda>s. svcId s = a_serviceId args) (catalogServices st)")
    case None
    with valid show ?thesis by (simp add: executeOperation_def Let_def)
  next
    case (Some i)
    obtain r st1 where em: "ensureMetadata up st i = (r, st1)"
      by (cases "ensureMetadata up st i")
    have tok: "fetches (handToken st1) = fetches st1 \<and> metadataCache (handToken st1) = metadataCache st1"
      by (simp add: handToken_def split: option.splits)
    have "fetches (snd (executeOperation up st args)) = fetches st1
          \<and> metadataCache (snd (executeOperation up st args)) = metadataCache st1"
    proof (cases r)
      case (Inl e)
      with valid Some em show ?thesis by (simp add: executeOperation_def Let_def)
    next
      case (Inr m)
      show ?thesis
      proof (cases "find (\<lambda>e. ename e = a_entityName args) (entityTypes m)")
        case None
        with valid Some em Inr show ?thesis by (simp add: executeOperation_def Let_def)
      next
        case (Some entityType)
        have "executeOperation up st args =
          (case runOperation up (handToken st1) (catalogServices (handToken st1) ! i) entityType args
             (toLowerCase (a_operation args)) of
            (Inl e, st3) \<Rightarrow> (Inl (errorMessage e), st3)
          | (Inr r, st3) \<Rightarrow> (Inr r, st3))"
          using valid \<open>findIndex _ _ = Some i\<close> em [unfolded Inr] Some
          by (rule executeOperation_found)
        then have "snd (executeOperation up st args) =
            snd (runOperation up (handToken st1) (catalogServices (handToken st1) ! i) entityType args
             (toLowerCase (a_operation args)))"
          by (simp split: prod.splits sum.splits)
        then show ?thesis
          using runOperation_fetches tok by simp
      qed
    qed
    with Some em show ?thesis by auto
  qed
qed

lemma fetchedOnce_cong:
  "fetches a = fetches b \<Longrightarrow> metadataCache a = metadataCache b \<Longrightarrow> fetchedOnce a = fetchedOnce b"
  by (simp add: fetchedOnce_def)

lemma fetchedOnce_runCall: "fetchedOnce st \<Longrightarrow> fetchedOnce (runCall up st c)"
proof (cases c)
  case (Inspect serviceId entityName)
  assume "fetchedOnce st"
  then show ?thesis
    using getEntityMetadata_state [of up st serviceId entityName] fetchedOnce_ensureMetadata [of st up]
    by (auto simp: runCall_def Inspect)
next
  case (Act args)
  assume inv: "fetchedOnce st"
  from executeOperation_state [of up st args] show ?thesis
  proof
    assume "snd (executeOperation up st args) = st"
    with inv show ?thesis by (simp add: runCall_def Act)
  next
    assume "\<exists>i. findIndex (\<lambda>s. svcId s = a_serviceId args) (catalogServices st) = Some i
          \<and> fetches (snd (executeOperation up st args)) = fetches (snd (ensureMetadata up st i))
          \<and> metadataCache (snd (executeOperation up st args))
              = metadataCache (snd (ensureMetadata up st i))"
    then obtain i where
      "fetches (snd (executeOperation up st args)) = fetches (snd (ensureMetadata up st i))"
      "metadataCache (snd (executeOperation up st args)) = metadataCache (snd (ensureMetadata up st i))"
      by blast
    then have "fetchedOnce (snd (executeOperation up st args)) = fetchedOnce (snd (ensureMetadata up st i))"
      by (rule fetchedOnce_cong)
    with inv fetchedOnce_ensureMetadata show ?thesis by (simp add: runCall_def Act)
  qed
qed

lemma fetchedOnce_runCalls: "fetchedOnce st \<Longrightarrow> fetchedOnce (runCalls up st cs)"
  unfolding runCalls_def by (induction cs arbitrary: st) (auto intro: fetchedOnce_runCall)

lemma fetchedOnce_initial: "fetchedOnce (initialRegistry catalog)"
  by (simp add: fetchedOnce_def initialRegistry_def)

lemma distinct_filter_eq_le_1: "distinct xs \<Longrightarrow> length (filter (\<lambda>x. x = a) xs) \<le> 1"
  by (induction xs) (auto simp: filter_empty_conv)

lemma runCall_known:
  assumes "schemaKnown st (targetOf c)"
  shows "fetches (runCall up st c) = fetches st"
proof -
  have known: "fetches (snd (ensureMetadata up st i)) = fetches st"
    if "findIndex (\<lambda>s. svcId s = targetOf c) (catalogServices st) = Some i" for i
  proof -
    have "svcId (catalogServices st ! i) = targetOf c"
      using findIndex_Some [OF that] by simp
    with assms that show ?thesis
      by (intro ensureMetadata_known) (auto simp: schemaKnown_def)
  qed
  show ?thesis
  proof (cases c)
    case (Inspect serviceId entityName)
    with known getEntityMetadata_state [of up st serviceId entityName] show ?thesis
      by (auto simp: runCall_def)
  next
    case (Act args)
    with known executeOperation_state [of up st args] show ?thesis
      by (auto simp: runCall_def)
  qed
qed

text \<open>
  A fetch that throws is logged and changes nothing else: the service keeps no metadata and
  the cache no entry, so the next call on that service fetches again.
\<close>

lemma ensureMetadata_failed_fetch:
  assumes "metadata (catalogServices st ! i) = None"
    and "map_of (metadataCache st) (svcId (catalogServices st ! i)) = None"
    and "fetchServiceMetadata up (length (fetches st)) (catalogServices st ! i) = Inl e"
  shows "ensureMetadata up st i =
     (Inl e, st\<lparr>fetches := fetches st @ [(svcId (catalogServices st ! i), False)]\<rparr>)"
  using assms by (simp add: ensureMetadata_def Let_def)

text \<open>
  C7, as the code has it. Over any sequence of Stage 2 and Stage 3 calls on a fresh
  registry, the schema of a service is fetched successfully at most once; after that
  fetch the schema is known; and a call that addresses a service whose schema is known
  (cached, or on the catalog entry) invokes no fetch. A fetch that throws stores nothing,
  so the next call fetches again.
\<close>

theorem schema_fetch_succeeds_at_most_once:
  "length (filter (\<lambda>f. f = (serviceId, True))
             (fetches (runCalls up (initialRegistry catalog) cs))) \<le> 1
   \<and> ((serviceId, True) \<in> set (fetches (runCalls up (initialRegistry catalog) cs)) \<longrightarrow>
        schemaKnown (runCalls up (initialRegistry catalog) cs) serviceId)
   \<and> (schemaKnown st (targetOf c) \<longrightarrow> fetches (runCall up st c) = fetches st)"
proof -
  let ?R = "runCalls up (initialRegistry catalog) cs"
  have inv: "fetchedOnce ?R"
    using fetchedOnce_initial by (rule fetchedOnce_runCalls)
  have "filter (\<lambda>f. f = (serviceId, True)) (fetches ?R)
      = filter (\<lambda>f. f = (serviceId, True)) (filter snd (fetches ?R))"
    by (auto intro: filter_cong)
  moreover have "length (filter (\<lambda>f. f = (serviceId, True)) (filter snd (fetches ?R))) \<le> 1"
    using inv by (intro distinct_filter_eq_le_1) (simp add: fetchedOnce_def)
  ultimately have one: "length (filter (\<lambda>f. f = (serviceId, True)) (fetches ?R)) \<le> 1"
    by simp
  have two: "schemaKnown ?R serviceId" if "(serviceId, True) \<in> set (fetches ?R)"
    using inv that by (auto simp: fetchedOnce_def list_all_iff schemaKnown_def)
  from one two runCall_known show ?thesis by blast
qed

theorem schema_fetch_succeeds_at_most_once_witness:
  "fetches (runCalls exampleUpstream (initialRegistry exampleCatalog)
      [Inspect lineItems ''Item'',
       Act (actArgs ''Item'' ''update'' [(''Document'', JNumber ''4711''),
         (''CompanyCode'', JString ''1000''), (''Line'', JNumber ''1''), (''Amount'', JNumber ''5'')]),
       Inspect lineItems ''Customer'']) = [(lineItems, True)]
   \<and> schemaKnown (runCalls exampleUpstream (initialRegistry exampleCatalog)
      [Inspect lineItems ''Item'',
       Act (actArgs ''Item'' ''update'' [(''Document'', JNumber ''4711''),
         (''CompanyCode'', JString ''1000''), (''Line'', JNumber ''1''), (''Amount'', JNumber ''5'')]),
       Inspect lineItems ''Customer'']) lineItems
   \<and> fetches (runCall failingUpstream (runCalls exampleUpstream (initialRegistry exampleCatalog)
      [Inspect lineItems ''Item'',
       Act (actArgs ''Item'' ''update'' [(''Document'', JNumber ''4711''),
         (''CompanyCode'', JString ''1000''), (''Line'', JNumber ''1''), (''Amount'', JNumber ''5'')]),
       Inspect lineItems ''Customer'']) (Inspect lineItems ''Customer'')) = [(lineItems, True)]"
proof -
  let ?cs = "[Inspect lineItems ''Item'',
       Act (actArgs ''Item'' ''update'' [(''Document'', JNumber ''4711''),
         (''CompanyCode'', JString ''1000''), (''Line'', JNumber ''1''), (''Amount'', JNumber ''5'')]),
       Inspect lineItems ''Customer'']"
  let ?R = "runCalls exampleUpstream (initialRegistry exampleCatalog) ?cs"
  have f: "fetches ?R = [(lineItems, True)]"
    by code_simp
  then have mem: "(lineItems, True) \<in> set (fetches ?R)"
    by simp
  have known: "schemaKnown ?R lineItems"
    using schema_fetch_succeeds_at_most_once
      [where serviceId = lineItems and up = exampleUpstream and catalog = exampleCatalog and cs = ?cs]
      mem
    by blast
  then have "schemaKnown ?R (targetOf (Inspect lineItems ''Customer''))"
    by simp
  then have "fetches (runCall failingUpstream ?R (Inspect lineItems ''Customer'')) = fetches ?R"
    using schema_fetch_succeeds_at_most_once
      [where st = ?R and c = "Inspect lineItems ''Customer''" and up = failingUpstream]
    by blast
  with f known show ?thesis by simp
qed

text \<open>
  With a schema provider that throws, two Stage 2 calls for one service invoke the fetch
  twice: nothing is cached on failure.
\<close>

theorem repeated_failing_fetch_counterexample:
  "fetches (runCalls failingUpstream (initialRegistry exampleCatalog)
      [Inspect lineItems ''Item'', Inspect lineItems ''Item''])
     = [(lineItems, False), (lineItems, False)]
   \<and> length (filter (\<lambda>f. fst f = lineItems)
        (fetches (runCalls failingUpstream (initialRegistry exampleCatalog)
           [Inspect lineItems ''Item'', Inspect lineItems ''Item'']))) = 2"
  by code_simp

section \<open>Key composition\<close>

lemma compositeParts_all_present:
  "list_all (hasKey ps) ks \<Longrightarrow>
   compositeParts ks ps =
     Inr (map (\<lambda>k. k @ ''='' @ [CHR 0x27] @ String_js (paramValue ps k) @ [CHR 0x27]) ks)"
  by (induction ks) auto

lemma compositeParts_first_missing:
  "\<not> list_all (hasKey ps) ks \<Longrightarrow>
   compositeParts ks ps = Inl (Error (''Missing key: '' @ hd (filter (\<lambda>k. \<not> hasKey ps k) ks)))"
  by (induction ks) auto

text \<open>
  What \<open>buildKeyValue\<close> returns, in terms of the \<open>in\<close> test. With exactly one declared
  key, the parameter's string conversion, bare. With any other number of keys, all found,
  the \<open>name='value'\<close> pairs in declaration order, joined by commas. When some key is not
  found, the exception names the first such key in declaration order.
\<close>

lemma buildKeyValue_composition:
  "(keys e = [k] \<longrightarrow>
      buildKeyValue e ps =
        (if hasKey ps k then Inr (String_js (paramValue ps k))
         else Inl (Error (''Missing key: '' @ k))))
   \<and> (length (keys e) \<noteq> 1 \<and> list_all (hasKey ps) (keys e) \<longrightarrow>
        buildKeyValue e ps =
          Inr (join '',''
                 (map (\<lambda>k. k @ ''='' @ [CHR 0x27] @ String_js (paramValue ps k) @ [CHR 0x27])
                    (keys e))))
   \<and> (\<not> list_all (hasKey ps) (keys e) \<longrightarrow>
        buildKeyValue e ps =
          Inl (Error (''Missing key: '' @ hd (filter (\<lambda>k. \<not> hasKey ps k) (keys e)))))"
proof -
  have single: "buildKeyValue e ps =
        (if hasKey ps k then Inr (String_js (paramValue ps k))
         else Inl (Error (''Missing key: '' @ k)))" if "keys e = [k]"
    using that by (simp add: buildKeyValue_def)
  have composite: "buildKeyValue e ps =
          Inr (join '',''
                 (map (\<lambda>k. k @ ''='' @ [CHR 0x27] @ String_js (paramValue ps k) @ [CHR 0x27])
                    (keys e)))"
    if "length (keys e) \<noteq> 1" "list_all (hasKey ps) (keys e)"
    using that by (simp add: buildKeyValue_def compositeParts_all_present)
  have missing: "buildKeyValue e ps =
          Inl (Error (''Missing key: '' @ hd (filter (\<lambda>k. \<not> hasKey ps k) (keys e))))"
    if m: "\<not> list_all (hasKey ps) (keys e)"
  proof (cases "length (keys e) = 1")
    case True
    then obtain k' where k': "keys e = [k']"
      by (cases "keys e") auto
    with m show ?thesis
      by (simp add: buildKeyValue_def)
  next
    case False
    with m show ?thesis
      by (simp add: buildKeyValue_def compositeParts_first_missing)
  qed
  from single composite missing show ?thesis by blast
qed

text \<open>
  For key properties that are not named like a member of \<open>Object.prototype\<close>, found
  means given in the parameters, and the value is the one given.
\<close>

lemma hasKey_own:
  "k \<notin> set objectPrototypeMembers \<Longrightarrow> hasKey ps k = (map_of ps k \<noteq> None)"
  by (simp add: hasKey_def)

lemma paramValue_own: "map_of ps k = Some v \<Longrightarrow> paramValue ps k = v"
  by (simp add: paramValue_def)

lemma buildKeyValue_single_own_key:
  assumes "keys e = [k]" and "k \<notin> set objectPrototypeMembers"
  shows "buildKeyValue e ps =
     (case map_of ps k of
        None \<Rightarrow> Inl (Error (''Missing key: '' @ k))
      | Some v \<Rightarrow> Inr (String_js v))"
  using assms by (simp add: buildKeyValue_def hasKey_own paramValue_def split: option.splits)

lemma buildKeyValue_examples:
  "buildKeyValue customerEntity [(''Customer'', JString ''C-17'')] = Inr ''C-17''
   \<and> buildKeyValue itemEntity
        [(''Document'', JNumber ''4711''), (''CompanyCode'', JString ''1000''),
         (''Line'', JNumber ''1'')]
       = Inr (''CompanyCode='' @ [CHR 0x27] @ ''1000'' @ [CHR 0x27] @ '',Document='' @ [CHR 0x27]
              @ ''4711'' @ [CHR 0x27] @ '',Line='' @ [CHR 0x27] @ ''1'' @ [CHR 0x27])
   \<and> buildKeyValue itemEntity [(''Line'', JNumber ''1'')] = Inl (Error ''Missing key: CompanyCode'')
   \<and> sapCalls (snd (executeOperation exampleUpstream warmRegistry
        (actArgs ''Customer'' ''read-single'' [(''Customer'', JString ''C-17'')])))
       = [ReadEntity ''/sap/opu/odata/sap/ZFAR_CUSTOMER_LINE_ITEMS_0001/'' (Some ''Customers'') ''C-17'']"
  by code_simp

text \<open>
  C9. The claim says that a key without a value in the parameters raises the exception, and
  that the exception names the first such key in declaration order. The code does so
  except for a key property named like a member of \<open>Object.prototype\<close>, which the \<open>in\<close>
  test finds on every parameter object. With the single key \<open>constructor\<close> and no
  parameters, no exception is raised: the key value is the text of the function
  \<open>Object\<close>, and the request goes upstream with it. With the keys \<open>constructor\<close> and
  \<open>Line\<close> and no parameters, the exception names \<open>Line\<close>, the second key without a
  value.
\<close>

theorem buildKeyValue_inherited_key:
  "map_of ([] :: parameters) ''constructor'' = None
   \<and> buildKeyValue (customerEntity\<lparr>keys := [''constructor'']\<rparr>) []
       = Inr ''function Object() { [native code] }''
   \<and> sapCalls (snd (runOperation exampleUpstream warmRegistry (catalogServices warmRegistry ! 4)
        (customerEntity\<lparr>keys := [''constructor'']\<rparr>) (actArgs ''Customer'' ''read-single'' [])
        ''read-single''))
       = [ReadEntity ''/sap/opu/odata/sap/ZFAR_CUSTOMER_LINE_ITEMS_0001/'' (Some ''Customers'')
            ''function Object() { [native code] }'']
   \<and> buildKeyValue (itemEntity\<lparr>keys := [''constructor'', ''Line'']\<rparr>) []
       = Inl (Error ''Missing key: Line'')"
  by code_simp

section \<open>Loading the embedding snapshot\<close>

lemma loadCache_hard_miss:
  "version cache \<noteq> CACHE_VERSION \<or> model cache \<noteq> MODEL_NAME \<Longrightarrow>
   loadCache (Some cache) currentServices current = (False, current)"
  by (auto simp: loadCache_def)

lemma loadCache_accepts_iff:
  "fst (loadCache (Some cache) (Some services) current) \<longleftrightarrow>
     version cache = CACHE_VERSION \<and> model cache = MODEL_NAME
     \<and> \<bar>entityCount cache - int (expectedCountOf services)\<bar>
         \<le> int (max 10 (expectedCountOf services div 20))"
  by (auto simp: loadCache_def Let_def)

text \<open>
  C8, as the code has it. A snapshot of another version or another model is a miss, and
  \<open>indexEntities\<close> then indexes everything again. With the current services given, a
  snapshot of the right version and model is accepted exactly when its entity count
  differs from the number of business entities of those services by at most
  \<open>max 10 (count div 20)\<close>; so a difference of at most five percent is accepted. The
  decision depends on the services through that number only.
\<close>

theorem loadCache_acceptance:
  "(version cache \<noteq> CACHE_VERSION \<or> model cache \<noteq> MODEL_NAME \<longrightarrow>
       loadCache (Some cache) currentServices current = (False, current)
       \<and> indexEntitiesOutcome (Some cache) services forceReindex current = Reindexed)
   \<and> (fst (loadCache (Some cache) (Some services) current) \<longleftrightarrow>
        version cache = CACHE_VERSION \<and> model cache = MODEL_NAME
        \<and> \<bar>entityCount cache - int (expectedCountOf services)\<bar>
            \<le> int (max 10 (expectedCountOf services div 20)))
   \<and> (version cache = CACHE_VERSION \<and> model cache = MODEL_NAME
        \<and> 20 * \<bar>entityCount cache - int (expectedCountOf services)\<bar> \<le> int (expectedCountOf services)
       \<longrightarrow> loadCache (Some cache) (Some services) current = (True, embeddings cache))
   \<and> (expectedCountOf services = expectedCountOf services' \<longrightarrow>
        loadCache file (Some services) current = loadCache file (Some services') current)"
proof -
  have miss: "loadCache (Some cache) currentServices current = (False, current)
       \<and> indexEntitiesOutcome (Some cache) services forceReindex current = Reindexed"
    if "version cache \<noteq> CACHE_VERSION \<or> model cache \<noteq> MODEL_NAME"
    using that loadCache_hard_miss [of cache]
    by (simp add: indexEntitiesOutcome_def)
  have within: "loadCache (Some cache) (Some services) current = (True, embeddings cache)"
    if "version cache = CACHE_VERSION \<and> model cache = MODEL_NAME
        \<and> 20 * \<bar>entityCount cache - int (expectedCountOf services)\<bar> \<le> int (expectedCountOf services)"
  proof -
    have ar: "20 * d \<le> n \<Longrightarrow> d \<le> n div 20" for d n :: int
      by arith
    have "\<bar>entityCount cache - int (expectedCountOf services)\<bar> \<le> int (expectedCountOf services div 20)"
      using that ar by (simp add: zdiv_int)
    then have "\<not> \<bar>entityCount cache - int (expectedCountOf services)\<bar>
          > int (max 10 (expectedCountOf services div 20))"
      by simp
    with that show ?thesis by (simp add: loadCache_def Let_def)
  qed
  have same: "loadCache file (Some services) current = loadCache file (Some services') current"
    if "expectedCountOf services = expectedCountOf services'"
    using that by (simp add: loadCache_def Let_def split: option.splits)
  from miss loadCache_accepts_iff [of cache services current] within same
  show ?thesis by blast
qed

text \<open>
  A snapshot written for a corpus with other service identifiers, whose entity count is
  off by half, is accepted: no signature of the corpus is compared, and ten entities of
  difference are always tolerated.
\<close>

theorem snapshot_drift_counterexample:
  "computeServicesHash corpusA = ''ZFAR_BALANCES_V2_SRV_0001|3''
   \<and> computeServicesHash corpusB = ''ZSD_BILLING_DOC_SRV|2''
   \<and> int (expectedCountOf corpusB) < 20 * \<bar>entityCount snapshotA - int (expectedCountOf corpusB)\<bar>
   \<and> loadCache (Some snapshotA) (Some corpusB) [] = (True, embeddings snapshotA)"
  by code_simp

theorem loadCache_acceptance_witness:
  "version (snapshotA\<lparr>version := ''0.9''\<rparr>) \<noteq> CACHE_VERSION
   \<and> loadCache (Some (snapshotA\<lparr>version := ''0.9''\<rparr>)) (Some corpusA) [] = (False, [])
   \<and> indexEntitiesOutcome (Some (snapshotA\<lparr>version := ''0.9''\<rparr>)) corpusA False [] = Reindexed
   \<and> version snapshotA = CACHE_VERSION \<and> model snapshotA = MODEL_NAME
   \<and> 20 * \<bar>entityCount snapshotA - int (expectedCountOf corpusA)\<bar> \<le> int (expectedCountOf corpusA)
   \<and> loadCache (Some snapshotA) (Some corpusA) [] = (True, embeddings snapshotA)"
proof -
  have v: "version (snapshotA\<lparr>version := ''0.9''\<rparr>) \<noteq> CACHE_VERSION"
    by code_simp
  have ok: "version snapshotA = CACHE_VERSION \<and> model snapshotA = MODEL_NAME
   \<and> 20 * \<bar>entityCount snapshotA - int (expectedCountOf corpusA)\<bar> \<le> int (expectedCountOf corpusA)"
    by code_simp
  have one: "loadCache (Some (snapshotA\<lparr>version := ''0.9''\<rparr>)) (Some corpusA) [] = (False, [])
   \<and> indexEntitiesOutcome (Some (snapshotA\<lparr>version := ''0.9''\<rparr>)) corpusA False [] = Reindexed"
    using loadCache_acceptance [of "snapshotA\<lparr>version := ''0.9''\<rparr>" "Some corpusA" "[]" corpusA False] v
    by blast
  have two: "loadCache (Some snapshotA) (Some corpusA) [] = (True, embeddings snapshotA)"
    using loadCache_acceptance [of snapshotA _ "[]" corpusA] ok by blast
  from v ok one two show ?thesis by blast
qed

end
